theory Spec2Isabelle
  imports Main "HOL-Library.Sublist"
begin

section \<open>Python values: exceptions and outcomes\<close>

text \<open>
  The module \<^verbatim>\<open>dynamips_lib.py\<close> is modelled with the string semantics its code
  presupposes: what the socket delivers is text (\<^verbatim>\<open>str\<close>), a list of bytes.
  Every \<^verbatim>\<open>raise\<close> of the source is a value \<open>Raise e\<close>; a call that is still
  looping when its fuel is used up is \<open>None\<close>.
\<close>

datatype exn =
    DynamipsError string
  | IndexError
  | TypeError
  | AttributeError

datatype 'a outcome = Return 'a | Raise exn

definition CR :: char where "CR = CHR 0x0D"
definition LF :: char where "LF = CHR 0x0A"

definition crlf :: string where "crlf = [CR, LF]"

section \<open>String helpers of the Python runtime\<close>

text \<open>\<^verbatim>\<open>str.split('\r\n')\<close>: cut at every occurrence of the separator, scanning from
  the left; the result always has at least one element.\<close>

fun split_crlf :: "string \<Rightarrow> string list" where
  "split_crlf [] = [[]]"
| "split_crlf [c] = [[c]]"
| "split_crlf (c # d # cs) =
     (if c = CR \<and> d = LF then [] # split_crlf cs
      else (let r = split_crlf (d # cs) in (c # hd r) # tl r))"

text \<open>\<^verbatim>\<open>str.strip()\<close>: remove leading and trailing whitespace.\<close>

definition is_space :: "char \<Rightarrow> bool" where
  "is_space c = (c \<in> set [CHR '' '', CHR 0x09, CHR 0x0A, CHR 0x0B, CHR 0x0C, CHR 0x0D])"

definition strip :: "string \<Rightarrow> string" where
  "strip s = rev (dropWhile is_space (rev (dropWhile is_space s)))"

text \<open>\<^verbatim>\<open>'%i' % n\<close> and \<^verbatim>\<open>str(n)\<close> for an integer: decimal digits, a minus sign when negative.\<close>

fun digits :: "nat \<Rightarrow> string" where
  "digits n = (if n < 10 then [''0123456789'' ! n]
               else digits (n div 10) @ [''0123456789'' ! (n mod 10)])"

declare digits.simps [simp del]

definition str_int :: "int \<Rightarrow> string" where
  "str_int i = (if i < 0 then CHR ''-'' # digits (nat (- i)) else digits (nat i))"

section \<open>The terminator patterns\<close>

text \<open>\<^verbatim>\<open>error_re = re.compile(r"^2[0-9][0-9]-")\<close>, used through \<^verbatim>\<open>error_re.search\<close>.\<close>

definition is_digit :: "char \<Rightarrow> bool" where
  "is_digit c = (c \<in> set ''0123456789'')"

fun error_re :: "string \<Rightarrow> bool" where
  "error_re (a # b # c # d # rest) =
     (a = CHR ''2'' \<and> is_digit b \<and> is_digit c \<and> d = CHR ''-'')"
| "error_re _ = False"

section \<open>The socket\<close>

text \<open>
  A socket is the script of what it will deliver: \<open>inbox\<close> holds the data in the order of
  arrival, one element per arrival; when the script is exhausted \<open>recv\<close> returns the empty
  string if the peer has closed the connection and raises \<^verbatim>\<open>timeout\<close> otherwise (the
  socket has a timeout set). \<open>outbox\<close> collects what \<^verbatim>\<open>sendall\<close> has written; on a
  \<open>broken\<close> socket \<^verbatim>\<open>sendall\<close> raises.
\<close>

record socket =
  inbox :: "string list"
  peer_closed :: bool
  outbox :: "string list"
  broken :: bool

text \<open>\<^verbatim>\<open>s.recv(n)\<close>: at most \<open>n\<close> bytes of what has arrived; \<open>None\<close> is \<^verbatim>\<open>timeout\<close>.\<close>

definition recv :: "nat \<Rightarrow> socket \<Rightarrow> string option \<times> socket" where
  "recv n sock =
     (case inbox sock of
        [] \<Rightarrow> (if peer_closed sock then Some [] else None, sock)
      | c # cs \<Rightarrow>
          (Some (take n c),
           sock\<lparr>inbox := (if length c \<le> n then cs else drop n c # cs)\<rparr>))"

text \<open>\<^verbatim>\<open>s.sendall(data)\<close>: \<open>None\<close> when it raises.\<close>

definition sendall :: "socket \<Rightarrow> string \<Rightarrow> socket option" where
  "sendall sock data =
     (if broken sock then None else Some (sock\<lparr>outbox := outbox sock @ [data]\<rparr>))"

section \<open>The reply loop of \<^verbatim>\<open>send\<close>\<close>

definition SIZE :: nat where "SIZE = 1024"

text \<open>
  The \<^verbatim>\<open>while True\<close> loop of \<^verbatim>\<open>send\<close>, one iteration per unit of fuel, on the
  loop's variables \<open>data\<close> and \<open>buf\<close>. Indexing an empty string or list with \<^verbatim>\<open>[-1]\<close>
  raises \<^verbatim>\<open>IndexError\<close>, which \<^verbatim>\<open>send\<close> does not catch.
\<close>

fun send_loop :: "nat \<Rightarrow> socket \<Rightarrow> string list \<Rightarrow> string \<Rightarrow> (string list outcome \<times> socket) option" where
  "send_loop 0 sock data buf = None"
| "send_loop (Suc fuel) sock data buf =
     (case recv SIZE sock of
        (None, sock') \<Rightarrow> Some (Raise (DynamipsError ''timeout''), sock')
      | (Some chunk, sock') \<Rightarrow>
          (let buf = buf @ chunk in
           if buf = [] then Some (Raise IndexError, sock')
           else if last buf \<noteq> LF then send_loop fuel sock' data buf
           else
             (let data = data @ split_crlf buf in
              if data = [] then Some (Raise IndexError, sock')
              else
                (let data = (if last data = [] then butlast data else data) in
                 if data = [] then Some (Raise IndexError, sock')
                 else if take 4 (last data) = ''100-'' then Some (Return data, sock')
                 else if error_re (last data) then Some (Raise (DynamipsError (last data)), sock')
                 else send_loop fuel sock' data []))))"

section \<open>Objects\<close>

text \<open>
  Python objects are shared and mutated in place, so the model keeps them in a store:
  one table per class, indexed by instance, and a reference names the class and the
  instance. A \<open>Router\<close> has no \<^verbatim>\<open>adapter\<close> attribute; the other five classes have one.
\<close>

datatype objref = Router nat | Adapter nat | Bridge nat | FRSW nat | ATMSW nat | ETHSW nat

text \<open>Class \<^verbatim>\<open>Dynamips\<close>: one connection to a hypervisor.\<close>

record dynamips =
  host :: string
  tcp_port :: int
  udp :: int
  baseconsole :: int
  devices :: "objref list"
  s :: socket

text \<open>Class \<^verbatim>\<open>Router\<close>; \<open>r_console = None\<close> when the attribute was never set
  (a router created with \<^verbatim>\<open>consoleFlag = False\<close>).\<close>

record router =
  r_d :: nat
  r_model :: string
  r_name :: string
  r_console :: "int option"

text \<open>Class \<^verbatim>\<open>NIO_udp\<close>; its fields never change after construction.\<close>

record nio_udp =
  nio_d :: nat
  udplocal :: int
  remotehost :: string
  udpremote :: int
  nio_name :: string

text \<open>Class \<^verbatim>\<open>BaseAdapter\<close>: \<open>a_ports\<close> is \<^verbatim>\<open>len(self.ports)\<close>.\<close>

record base_adapter =
  a_adapter :: string
  a_router :: nat
  a_slot :: int
  a_ports :: nat
  a_nios :: "nio_udp option list"

text \<open>Class \<^verbatim>\<open>Bridge\<close>.\<close>

record bridge =
  b_d :: nat
  b_name :: string
  b_nios :: "nio_udp list"

text \<open>Classes \<^verbatim>\<open>FRSW\<close>, \<^verbatim>\<open>ATMSW\<close> and \<^verbatim>\<open>ETHSW\<close>: the NIOs are a dictionary
  indexed by port; a port argument left out is the key \<^verbatim>\<open>None\<close>.\<close>

record switch =
  sw_d :: nat
  sw_name :: string
  sw_nios :: "int option \<rightharpoonup> nio_udp"

text \<open>The module's global \<^verbatim>\<open>NOSEND\<close>, the class attribute \<^verbatim>\<open>NIO_udp.__instance\<close>
  and the objects.\<close>

record world =
  NOSEND :: bool
  NIO_udp_instance :: nat
  hypervisors :: "nat \<Rightarrow> dynamips"
  routers :: "nat \<Rightarrow> router"
  adapters :: "nat \<Rightarrow> base_adapter"
  bridges :: "nat \<Rightarrow> bridge"
  frsws :: "nat \<Rightarrow> switch"
  atmsws :: "nat \<Rightarrow> switch"
  ethsws :: "nat \<Rightarrow> switch"

definition set_socket :: "world \<Rightarrow> nat \<Rightarrow> socket \<Rightarrow> world" where
  "set_socket w d sock = w\<lparr>hypervisors := (hypervisors w)(d := (hypervisors w d)\<lparr>s := sock\<rparr>)\<rparr>"

text \<open>Sequencing: an exception or a call that does not return ends the sequence.\<close>

definition and_then ::
  "('a outcome \<times> world) option \<Rightarrow> ('a \<Rightarrow> world \<Rightarrow> ('b outcome \<times> world) option)
     \<Rightarrow> ('b outcome \<times> world) option" where
  "and_then m f =
     (case m of
        None \<Rightarrow> None
      | Some (Raise e, w) \<Rightarrow> Some (Raise e, w)
      | Some (Return x, w) \<Rightarrow> f x w)"

section \<open>\<^verbatim>\<open>send\<close>\<close>

text \<open>The \<^verbatim>\<open>try\<close> around \<^verbatim>\<open>sendall\<close> in \<^verbatim>\<open>send\<close>: a failure is printed and
  otherwise ignored.\<close>

definition try_sendall :: "socket \<Rightarrow> string \<Rightarrow> socket" where
  "try_sendall sock data = (case sendall sock data of None \<Rightarrow> sock | Some sock' \<Rightarrow> sock')"

text \<open>
  \<^verbatim>\<open>send(dynamips, command)\<close>. With \<^verbatim>\<open>NOSEND\<close> set the socket is not touched and
  the empty string, an empty sequence, is returned.
\<close>

definition send :: "nat \<Rightarrow> world \<Rightarrow> nat \<Rightarrow> string \<Rightarrow> (string list outcome \<times> world) option" where
  "send fuel w d command =
     (if \<not> NOSEND w then
        (case send_loop fuel (try_sendall (s (hypervisors w d)) (strip command @ [LF])) [] [] of
           None \<Rightarrow> None
         | Some (Raise e, sock') \<Rightarrow> Some (Raise e, set_socket w d sock')
         | Some (Return data, sock') \<Rightarrow>
             (if length data = 0
              then Some (Raise (DynamipsError ''no data''), set_socket w d sock')
              else Some (Return data, set_socket w d sock')))
      else Some (Return [], w))"

section \<open>\<^verbatim>\<open>validate_connect\<close>\<close>

definition ethernets :: "string list" where
  "ethernets = [''C7200-IO-FE'', ''PA-FE-TX'', ''PA-4E'', ''PA-8E'', ''NM-1FE-TX'', ''NM-1E'',
     ''NM-4E'', ''NM-16ESW'', ''Leopard-2FE'', ''GT96100-FE'', ''Bridge'', ''ETHSW'']"

definition serials :: "string list" where
  "serials = [''PA-4T+'', ''PA-8T'', ''NM-4T'', ''FRSW'']"

definition atms :: "string list" where
  "atms = [''PA-A1'', ''ATMSW'']"

text \<open>\<^verbatim>\<open>poss = ('PA-POS-OC3')\<close> is a string, not a tuple: \<^verbatim>\<open>a in poss\<close> is the
  substring test.\<close>

definition poss :: string where
  "poss = ''PA-POS-OC3''"

text \<open>The attribute \<^verbatim>\<open>obj.adapter\<close>; \<open>None\<close> is \<^verbatim>\<open>AttributeError\<close>.\<close>

definition get_adapter :: "world \<Rightarrow> objref \<Rightarrow> string option" where
  "get_adapter w obj =
     (case obj of
        Router r \<Rightarrow> None
      | Adapter a \<Rightarrow> Some (a_adapter (adapters w a))
      | Bridge b \<Rightarrow> Some ''Bridge''
      | FRSW f \<Rightarrow> Some ''FRSW''
      | ATMSW a \<Rightarrow> Some ''ATMSW''
      | ETHSW e \<Rightarrow> Some ''ETHSW'')"

definition validate_connect :: "world \<Rightarrow> objref \<Rightarrow> objref \<Rightarrow> unit outcome" where
  "validate_connect w int1 int2 =
     (case (get_adapter w int1, get_adapter w int2) of
        (Some a1, Some a2) \<Rightarrow>
          if a1 = ''Bridge'' \<and> a2 = ''Bridge''
          then Raise (DynamipsError ''attempt to connect two bridges'')
          else if a1 \<in> set ethernets \<and> a2 \<in> set ethernets then Return ()
          else if a1 \<in> set serials \<and> a2 \<in> set serials then Return ()
          else if a1 \<in> set atms \<and> a2 \<in> set atms then Return ()
          else if sublist a1 poss \<and> sublist a2 poss then Return ()
          else Raise (DynamipsError (''attempt to connect '' @ a1 @ '' to '' @ a2))
      | _ \<Rightarrow> Raise (DynamipsError ''invalid adapter or no adapter present''))"

section \<open>\<^verbatim>\<open>NIO_udp\<close> and the \<^verbatim>\<open>nio\<close> methods\<close>

text \<open>
  \<^verbatim>\<open>NIO_udp.__init__(dynamips, udplocal, remotehost, udpremote)\<close>, with the default
  name. When \<^verbatim>\<open>send\<close> raises, no object is returned; the class counter stays
  incremented.
\<close>

definition NIO_udp :: "nat \<Rightarrow> world \<Rightarrow> nat \<Rightarrow> int \<Rightarrow> string \<Rightarrow> int \<Rightarrow> (nio_udp outcome \<times> world) option" where
  "NIO_udp fuel w dynamips local rhost remote =
     (let instance = NIO_udp_instance w;
          w = w\<lparr>NIO_udp_instance := instance + 1\<rparr>;
          self = \<lparr>nio_d = dynamips, udplocal = local, remotehost = rhost, udpremote = remote,
                  nio_name = ''nio_udp'' @ str_int (int instance)\<rparr>
      in and_then
           (send fuel w dynamips
              (''nio create_udp '' @ nio_name self @ '' '' @ str_int (udplocal self) @ '' ''
                 @ remotehost self @ '' '' @ str_int (udpremote self)))
           (\<lambda>_ w. Some (Return self, w)))"

text \<open>
  \<^verbatim>\<open>BaseAdapter.nio(port, nio)\<close> with an \<^verbatim>\<open>NIO_udp\<close> object as \<^verbatim>\<open>nio\<close>. A port
  of \<^verbatim>\<open>None\<close> compares below zero. The assignment \<^verbatim>\<open>self.__nios[port] = nio\<close> raises
  \<^verbatim>\<open>IndexError\<close> beyond the list.
\<close>

definition BaseAdapter_nio :: "nat \<Rightarrow> world \<Rightarrow> nat \<Rightarrow> int option \<Rightarrow> nio_udp \<Rightarrow> (unit outcome \<times> world) option" where
  "BaseAdapter_nio fuel w self port nio =
     (case port of
        None \<Rightarrow> Some (Raise (DynamipsError ''invalid port''), w)
      | Some p \<Rightarrow>
          if p < 0 \<or> p > int (a_ports (adapters w self)) - 1
          then Some (Raise (DynamipsError ''invalid port''), w)
          else
            (let router = routers w (a_router (adapters w self)) in
             and_then
               (send fuel w (r_d router)
                  (r_model router @ '' add_nio_binding '' @ r_name router @ '' ''
                     @ str_int (a_slot (adapters w self)) @ '' '' @ str_int p @ '' '' @ nio_name nio))
               (\<lambda>_ w.
                  if nat p < length (a_nios (adapters w self))
                  then Some (Return (),
                    w\<lparr>adapters := (adapters w)(self := (adapters w self)
                         \<lparr>a_nios := (a_nios (adapters w self))[nat p := Some nio]\<rparr>)\<rparr>)
                  else Some (Raise IndexError, w))))"

text \<open>\<^verbatim>\<open>Bridge.nio(nio)\<close>.\<close>

definition Bridge_nio :: "nat \<Rightarrow> world \<Rightarrow> nat \<Rightarrow> nio_udp \<Rightarrow> (unit outcome \<times> world) option" where
  "Bridge_nio fuel w self nio =
     and_then
       (send fuel w (b_d (bridges w self))
          (''nio_bridge add_nio '' @ b_name (bridges w self) @ '' '' @ nio_name nio))
       (\<lambda>_ w. Some (Return (),
          w\<lparr>bridges := (bridges w)(self := (bridges w self)
               \<lparr>b_nios := b_nios (bridges w self) @ [nio]\<rparr>)\<rparr>))"

text \<open>\<^verbatim>\<open>FRSW.nio(port, nio)\<close> and \<^verbatim>\<open>ATMSW.nio(port, nio)\<close>: no command is sent.\<close>

definition FRSW_nio :: "world \<Rightarrow> nat \<Rightarrow> int option \<Rightarrow> nio_udp \<Rightarrow> (unit outcome \<times> world) option" where
  "FRSW_nio w self port nio =
     Some (Return (),
       w\<lparr>frsws := (frsws w)(self := (frsws w self)
            \<lparr>sw_nios := (sw_nios (frsws w self))(port \<mapsto> nio)\<rparr>)\<rparr>)"

definition ATMSW_nio :: "world \<Rightarrow> nat \<Rightarrow> int option \<Rightarrow> nio_udp \<Rightarrow> (unit outcome \<times> world) option" where
  "ATMSW_nio w self port nio =
     Some (Return (),
       w\<lparr>atmsws := (atmsws w)(self := (atmsws w self)
            \<lparr>sw_nios := (sw_nios (atmsws w self))(port \<mapsto> nio)\<rparr>)\<rparr>)"

text \<open>\<^verbatim>\<open>ETHSW.nio(port, nio)\<close>, without \<^verbatim>\<open>porttype\<close>.\<close>

definition ETHSW_nio :: "nat \<Rightarrow> world \<Rightarrow> nat \<Rightarrow> int option \<Rightarrow> nio_udp \<Rightarrow> (unit outcome \<times> world) option" where
  "ETHSW_nio fuel w self port nio =
     and_then
       (send fuel w (sw_d (ethsws w self))
          (''ethsw add_nio '' @ sw_name (ethsws w self) @ '' '' @ nio_name nio))
       (\<lambda>_ w. Some (Return (),
          w\<lparr>ethsws := (ethsws w)(self := (ethsws w self)
               \<lparr>sw_nios := (sw_nios (ethsws w self))(port \<mapsto> nio)\<rparr>)\<rparr>))"

text \<open>
  The call \<^verbatim>\<open>obj.nio(port=port, nio=nio)\<close> by the class of \<open>obj\<close>: a router has no
  such method, and \<^verbatim>\<open>Bridge.nio\<close> has no parameter \<^verbatim>\<open>port\<close>.
\<close>

definition call_nio :: "nat \<Rightarrow> world \<Rightarrow> objref \<Rightarrow> int option \<Rightarrow> nio_udp \<Rightarrow> (unit outcome \<times> world) option" where
  "call_nio fuel w obj port nio =
     (case obj of
        Router r \<Rightarrow> Some (Raise AttributeError, w)
      | Adapter a \<Rightarrow> BaseAdapter_nio fuel w a port nio
      | Bridge b \<Rightarrow> Some (Raise TypeError, w)
      | FRSW f \<Rightarrow> FRSW_nio w f port nio
      | ATMSW a \<Rightarrow> ATMSW_nio w a port nio
      | ETHSW e \<Rightarrow> ETHSW_nio fuel w e port nio)"

text \<open>
  The NIO attached to a port, as the \<^verbatim>\<open>nio\<close> methods store it: the entry of the
  adapter's list, the entry of the switch's dictionary, and for a bridge, which has no
  ports, the NIO added last.
\<close>

definition bound_nio :: "world \<Rightarrow> objref \<Rightarrow> int option \<Rightarrow> nio_udp option" where
  "bound_nio w obj port =
     (case obj of
        Router r \<Rightarrow> None
      | Adapter a \<Rightarrow>
          (case port of
             None \<Rightarrow> None
           | Some p \<Rightarrow>
               if 0 \<le> p \<and> nat p < length (a_nios (adapters w a))
               then a_nios (adapters w a) ! nat p else None)
      | Bridge b \<Rightarrow>
          (if b_nios (bridges w b) = [] then None else Some (last (b_nios (bridges w b))))
      | FRSW f \<Rightarrow> sw_nios (frsws w f) port
      | ATMSW a \<Rightarrow> sw_nios (atmsws w a) port
      | ETHSW e \<Rightarrow> sw_nios (ethsws w e) port)"

section \<open>\<^verbatim>\<open>gen_connect\<close>\<close>

definition set_udp :: "world \<Rightarrow> nat \<Rightarrow> int \<Rightarrow> world" where
  "set_udp w d v = w\<lparr>hypervisors := (hypervisors w)(d := (hypervisors w d)\<lparr>udp := v\<rparr>)\<rparr>"

definition gen_connect ::
  "nat \<Rightarrow> world \<Rightarrow> nat \<Rightarrow> objref \<Rightarrow> int option \<Rightarrow> nat \<Rightarrow> objref \<Rightarrow> int option
     \<Rightarrow> (unit outcome \<times> world) option" where
  "gen_connect fuel w src_dynamips src_adapter src_port dst_dynamips dst_adapter dst_port =
     (case validate_connect w src_adapter dst_adapter of
        Raise e \<Rightarrow> Some (Raise e, w)
      | Return _ \<Rightarrow>
          (let same = (host (hypervisors w src_dynamips) = host (hypervisors w dst_dynamips));
               src_ip = (if same then ''127.0.0.1'' else host (hypervisors w src_dynamips));
               dst_ip = (if same then ''127.0.0.1'' else host (hypervisors w dst_dynamips));
               src_udp = udp (hypervisors w src_dynamips);
               w = set_udp w src_dynamips (udp (hypervisors w src_dynamips) + 1);
               dst_udp = udp (hypervisors w dst_dynamips);
               w = set_udp w dst_dynamips (udp (hypervisors w dst_dynamips) + 1)
           in and_then (NIO_udp fuel w src_dynamips src_udp dst_ip dst_udp) (\<lambda>src_nio w.
              and_then (NIO_udp fuel w dst_dynamips dst_udp src_ip src_udp) (\<lambda>dst_nio w.
              and_then (call_nio fuel w src_adapter src_port src_nio) (\<lambda>_ w.
                (case dst_adapter of
                   Bridge b \<Rightarrow> Bridge_nio fuel w b dst_nio
                 | _ \<Rightarrow> call_nio fuel w dst_adapter dst_port dst_nio))))))"

section \<open>Console ports\<close>

text \<open>The attribute \<^verbatim>\<open>device.console\<close>; \<open>None\<close> is \<^verbatim>\<open>AttributeError\<close>: only a
  router has the property, and reading it fails while it was never set.\<close>

definition get_console :: "world \<Rightarrow> objref \<Rightarrow> int option" where
  "get_console w device = (case device of Router r \<Rightarrow> r_console (routers w r) | _ \<Rightarrow> None)"

text \<open>The attribute \<^verbatim>\<open>device.name\<close>; an adapter has none.\<close>

definition get_name :: "world \<Rightarrow> objref \<Rightarrow> string option" where
  "get_name w device =
     (case device of
        Router r \<Rightarrow> Some (r_name (routers w r))
      | Adapter a \<Rightarrow> None
      | Bridge b \<Rightarrow> Some (b_name (bridges w b))
      | FRSW f \<Rightarrow> Some (sw_name (frsws w f))
      | ATMSW a \<Rightarrow> Some (sw_name (atmsws w a))
      | ETHSW e \<Rightarrow> Some (sw_name (ethsws w e)))"

text \<open>The \<^verbatim>\<open>for device in dynamips.devices\<close> loop of \<^verbatim>\<open>checkconsole\<close>.\<close>

fun checkconsole_devices :: "world \<Rightarrow> int \<Rightarrow> objref list \<Rightarrow> objref option" where
  "checkconsole_devices w console [] = None"
| "checkconsole_devices w console (device # rest) =
     (case get_console w device of
        None \<Rightarrow> checkconsole_devices w console rest
      | Some con2 \<Rightarrow>
          if console = con2 then Some device else checkconsole_devices w console rest)"

definition checkconsole :: "int \<Rightarrow> world \<Rightarrow> nat \<Rightarrow> objref option" where
  "checkconsole console w dynamips =
     checkconsole_devices w console (devices (hypervisors w dynamips))"

definition conflict_message :: "int \<Rightarrow> string \<Rightarrow> string" where
  "conflict_message console name =
     ''console port '' @ str_int console @ '' is already in use by device: '' @ name"

text \<open>\<^verbatim>\<open>Router.__setconsole(console)\<close>, the setter of \<^verbatim>\<open>router.console\<close>, for an
  integer argument.\<close>

definition Router_setconsole :: "nat \<Rightarrow> world \<Rightarrow> nat \<Rightarrow> int \<Rightarrow> (unit outcome \<times> world) option" where
  "Router_setconsole fuel w self console =
     (if console < 1 \<or> console > 65535
      then Some (Raise (DynamipsError ''invalid console port''), w)
      else
        (let conflict = checkconsole console w (r_d (routers w self)) in
         if conflict \<noteq> None \<and> conflict \<noteq> Some (Router self)
         then (case get_name w (the conflict) of
                 None \<Rightarrow> Some (Raise AttributeError, w)
               | Some name \<Rightarrow> Some (Raise (DynamipsError (conflict_message console name)), w))
         else
           (let w = w\<lparr>routers := (routers w)(self := (routers w self)\<lparr>r_console := Some console\<rparr>)\<rparr>
            in and_then
                 (send fuel w (r_d (routers w self))
                    (''vm set_con_tcp_port '' @ r_name (routers w self) @ '' '' @ str_int console))
                 (\<lambda>_ w. Some (Return (), w)))))"

section \<open>Notions of the specification\<close>

text \<open>The bytes of a reply: every line is followed by carriage return and line feed.\<close>

definition wire :: "string list \<Rightarrow> string" where
  "wire ls = concat (map (\<lambda>l. l @ crlf) ls)"

text \<open>A line that \<^verbatim>\<open>send\<close> takes for the end of a reply: it begins with \<^verbatim>\<open>100-\<close> or
  matches the error pattern.\<close>

definition terminator :: "string \<Rightarrow> bool" where
  "terminator l = (take 4 l = ''100-'' \<or> error_re l)"

text \<open>
  No read ends exactly behind an earlier line that looks like a terminator: for the reads
  \<open>cs\<close> of the lines \<open>ls\<close>, wherever the first \<open>k\<close> reads (not all of them) make up exactly
  the first \<open>j + 1\<close> lines (not all of them), line \<open>j\<close> is no terminator.
\<close>

definition no_early_stop :: "string list \<Rightarrow> string list \<Rightarrow> bool" where
  "no_early_stop cs ls =
     (\<forall>k\<in>{1..<length cs}. \<forall>j\<in>{..<length ls - 1}.
        concat (take k cs) = wire (take (Suc j) ls) \<longrightarrow> \<not> terminator (ls ! j))"

text \<open>The families of the specification, and the family a kind resolves to.\<close>

datatype family = Ethernet | Serial | ATM | POS

definition family_of :: "string \<Rightarrow> family option" where
  "family_of kind =
     (if kind \<in> set ethernets then Some Ethernet
      else if kind \<in> set serials then Some Serial
      else if kind \<in> set atms then Some ATM
      else if kind = ''PA-POS-OC3'' then Some POS
      else None)"

text \<open>The adapter names of the module's adapter, bridge and switch classes, in the order
  of the classes.\<close>

definition kinds :: "string list" where
  "kinds = [''C7200-IO-FE'', ''PA-A1'', ''PA-FE-TX'', ''PA-4T+'', ''PA-8T'', ''PA-4E'', ''PA-8E'',
     ''PA-POS-OC3'', ''Leopard-2FE'', ''NM-1FE-TX'', ''NM-1E'', ''NM-4E'', ''NM-4T'', ''NM-16ESW'',
     ''GT96100-FE'', ''Bridge'', ''FRSW'', ''ATMSW'', ''ETHSW'']"

text \<open>The UDP port counter of every hypervisor.\<close>

definition udp_of :: "world \<Rightarrow> nat \<Rightarrow> int" where
  "udp_of w x = udp (hypervisors w x)"

text \<open>The console port a device holds, as a list of at most one element, and their
  uniqueness among the devices registered on a hypervisor.\<close>

definition held_console :: "world \<Rightarrow> objref \<Rightarrow> int list" where
  "held_console w device = (case get_console w device of None \<Rightarrow> [] | Some c \<Rightarrow> [c])"

definition consoles_unique :: "world \<Rightarrow> nat \<Rightarrow> bool" where
  "consoles_unique w d =
     distinct (concat (map (held_console w) (devices (hypervisors w d))))"

section \<open>Example objects\<close>

text \<open>A connected socket on which nothing has arrived, and a world of objects as their
  constructors leave them: the counters of \<^verbatim>\<open>Dynamips.__init__\<close>, no devices.\<close>

definition silent_socket :: socket where
  "silent_socket = \<lparr>inbox = [], peer_closed = False, outbox = [], broken = False\<rparr>"

definition blank_world :: world where
  "blank_world =
     \<lparr>NOSEND = False, NIO_udp_instance = 0,
      hypervisors = (\<lambda>_. \<lparr>host = ''localhost'', tcp_port = 7200, udp = 10000, baseconsole = 2000,
                            devices = [], s = silent_socket\<rparr>),
      routers = (\<lambda>_. \<lparr>r_d = 0, r_model = ''c7200'', r_name = ''r0'', r_console = None\<rparr>),
      adapters = (\<lambda>_. \<lparr>a_adapter = ''PA-FE-TX'', a_router = 0, a_slot = 1, a_ports = 1,
                         a_nios = [None]\<rparr>),
      bridges = (\<lambda>_. \<lparr>b_d = 0, b_name = ''b0'', b_nios = []\<rparr>),
      frsws = (\<lambda>_. \<lparr>sw_d = 0, sw_name = ''f0'', sw_nios = Map.empty\<rparr>),
      atmsws = (\<lambda>_. \<lparr>sw_d = 0, sw_name = ''a0'', sw_nios = Map.empty\<rparr>),
      ethsws = (\<lambda>_. \<lparr>sw_d = 0, sw_name = ''s0'', sw_nios = Map.empty\<rparr>)\<rparr>"

text \<open>The world in which hypervisor \<open>d\<close> will receive the reads \<open>cs\<close>.\<close>

definition receiving :: "nat \<Rightarrow> string list \<Rightarrow> world" where
  "receiving d cs = set_socket blank_world d (silent_socket\<lparr>inbox := cs\<rparr>)"

text \<open>
  A small laboratory. Hypervisors 0 and 1 are two connections to the same host
  \<^verbatim>\<open>bender\<close> (TCP ports 7200 and 7201), hypervisor 2 is on the host \<^verbatim>\<open>fry\<close> and
  will not answer, hypervisor 3 is on the host \<^verbatim>\<open>leela\<close>. Routers 0 and 1 live on
  hypervisor 0, router 2 on hypervisor 1, router 3 on hypervisor 2 and router 4 on
  hypervisor 3. Adapters 0, 1, 3, 4, 5 and 6 are \<^verbatim>\<open>PA-FE-TX\<close> (on routers 0, 1, 2, 3, 3
  and 4), adapter 2 is a serial \<^verbatim>\<open>PA-4T+\<close> on router 0.
\<close>

definition ok_reply :: string where
  "ok_reply = ''100-OK'' @ crlf"

definition lab :: world where
  "lab = blank_world\<lparr>
     hypervisors := (hypervisors blank_world)
       (0 := \<lparr>host = ''bender'', tcp_port = 7200, udp = 10000, baseconsole = 2000,
               devices = [Router 0, Router 1],
               s = silent_socket\<lparr>inbox := [ok_reply, ok_reply, ok_reply, ok_reply]\<rparr>\<rparr>,
        1 := \<lparr>host = ''bender'', tcp_port = 7201, udp = 10000, baseconsole = 2000,
               devices = [Router 2],
               s = silent_socket\<lparr>inbox := [ok_reply, ok_reply]\<rparr>\<rparr>,
        2 := \<lparr>host = ''fry'', tcp_port = 7200, udp = 10000, baseconsole = 2000,
               devices = [Router 3], s = silent_socket\<rparr>,
        3 := \<lparr>host = ''leela'', tcp_port = 7200, udp = 10000, baseconsole = 2000,
               devices = [Router 4],
               s = silent_socket\<lparr>inbox := [ok_reply, ok_reply]\<rparr>\<rparr>),
     routers := (routers blank_world)
       (0 := \<lparr>r_d = 0, r_model = ''c7200'', r_name = ''r0'', r_console = Some 2000\<rparr>,
        1 := \<lparr>r_d = 0, r_model = ''c7200'', r_name = ''r1'', r_console = Some 2001\<rparr>,
        2 := \<lparr>r_d = 1, r_model = ''c7200'', r_name = ''r2'', r_console = Some 2002\<rparr>,
        3 := \<lparr>r_d = 2, r_model = ''c7200'', r_name = ''r3'', r_console = Some 2003\<rparr>,
        4 := \<lparr>r_d = 3, r_model = ''c7200'', r_name = ''r4'', r_console = Some 2004\<rparr>),
     adapters := (adapters blank_world)
       (0 := \<lparr>a_adapter = ''PA-FE-TX'', a_router = 0, a_slot = 1, a_ports = 1, a_nios = [None]\<rparr>,
        1 := \<lparr>a_adapter = ''PA-FE-TX'', a_router = 1, a_slot = 1, a_ports = 1, a_nios = [None]\<rparr>,
        2 := \<lparr>a_adapter = ''PA-4T+'', a_router = 0, a_slot = 2, a_ports = 4,
               a_nios = [None, None, None, None]\<rparr>,
        3 := \<lparr>a_adapter = ''PA-FE-TX'', a_router = 2, a_slot = 1, a_ports = 1, a_nios = [None]\<rparr>,
        4 := \<lparr>a_adapter = ''PA-FE-TX'', a_router = 3, a_slot = 1, a_ports = 1, a_nios = [None]\<rparr>,
        5 := \<lparr>a_adapter = ''PA-FE-TX'', a_router = 3, a_slot = 2, a_ports = 1, a_nios = [None]\<rparr>,
        6 := \<lparr>a_adapter = ''PA-FE-TX'', a_router = 4, a_slot = 1, a_ports = 1, a_nios = [None]\<rparr>)\<rparr>"

section \<open>The string helpers on examples\<close>

lemma str_int_examples:
  "str_int 10000 = ''10000''" "str_int 0 = ''0''" "str_int (- 42) = ''-42''"
  by (simp_all add: str_int_def digits.simps)

lemma strip_example: "strip '' vm start r1  '' = ''vm start r1''"
  by (simp add: strip_def is_space_def)

section \<open>Reassembling a reply\<close>

lemma wire_Nil [simp]: "wire [] = []" by (simp add: wire_def)
lemma wire_Cons [simp]: "wire (l # ls) = l @ CR # LF # wire ls" by (simp add: wire_def crlf_def)
lemma wire_append: "wire (xs @ ys) = wire xs @ wire ys" by (simp add: wire_def)
lemma wire_eq_Nil [simp]: "wire ls = [] \<longleftrightarrow> ls = []" by (cases ls) simp_all

lemma CR_neq_LF [simp]: "CR \<noteq> LF" "LF \<noteq> CR" by (simp_all add: CR_def LF_def)

lemma split_crlf_nonempty [simp]: "split_crlf x \<noteq> []"
  by (induction x rule: split_crlf.induct) (auto simp: Let_def)

lemma split_line:
  "LF \<notin> set l \<Longrightarrow> split_crlf (l @ CR # LF # rest) = l # split_crlf rest"
proof (induction l)
  case Nil
  then show ?case by simp
next
  case (Cons c l)
  then show ?case by (cases l) (auto simp: Let_def)
qed

lemma split_wire:
  "\<forall>l\<in>set ls. LF \<notin> set l \<Longrightarrow> split_crlf (wire ls) = ls @ [[]]"
  by (induction ls) (simp_all add: split_line)

lemma last_wire: "ls \<noteq> [] \<Longrightarrow> last (wire ls) = LF"
  by (induction ls) (auto)

lemma prefix_wire_LF:
  "\<forall>l\<in>set ls. LF \<notin> set l \<Longrightarrow> prefix x (wire ls) \<Longrightarrow> x \<noteq> [] \<Longrightarrow> last x = LF
     \<Longrightarrow> \<exists>j. 0 < j \<and> j \<le> length ls \<and> x = wire (take j ls)"
proof (induction ls arbitrary: x)
  case Nil
  then show ?case by simp
next
  case (Cons l ls)
  from Cons.prems(2) have "prefix x ((l @ [CR, LF]) @ wire ls)" by simp
  then consider (short) "prefix x (l @ [CR, LF])" | (long) x' where "x = (l @ [CR, LF]) @ x'" "prefix x' (wire ls)" "x' \<noteq> []"
    unfolding prefix_append by (metis append_Nil2 prefix_order.refl)
  then show ?case
  proof cases
    case short
    then obtain t where t: "l @ [CR, LF] = x @ t" by (auto simp: prefix_def)
    have "LF \<notin> set l" using Cons.prems(1) by simp
    have "t = []"
    proof (cases t rule: rev_cases)
      case Nil
      then show ?thesis .
    next
      case (snoc t' z)
      with t have "(l @ [CR]) @ [LF] = (x @ t') @ [z]" by simp
      then have "l @ [CR] = x @ t'" by (simp only: append1_eq_conv)
      moreover have "last x \<in> set x" using Cons.prems(3) by simp
      ultimately have "LF \<in> set (l @ [CR])" using Cons.prems(4) by (metis Un_iff set_append)
      with \<open>LF \<notin> set l\<close> show ?thesis by simp
    qed
    with t have "x = wire (take 1 (l # ls))" by simp
    then show ?thesis by (intro exI[of _ 1]) simp
  next
    case long
    then have "last x' = LF" using Cons.prems(4) by simp
    with Cons.IH[of x'] Cons.prems(1) long obtain j where "0 < j" "j \<le> length ls" "x' = wire (take j ls)"
      by auto
    then show ?thesis using long by (intro exI[of _ "Suc j"]) simp
  qed
qed


lemma wire_take_mono:
  "j2 \<le> j \<Longrightarrow> length (wire (take j2 ls)) \<le> length (wire (take j ls))"
proof -
  assume "j2 \<le> j"
  then have "take j ls = take j2 ls @ drop j2 (take j ls)"
    by (metis append_take_drop_id min.absorb1 take_take)
  then have "wire (take j ls) = wire (take j2 ls) @ wire (drop j2 (take j ls))"
    by (metis wire_append)
  then show ?thesis by simp
qed

lemma boundary_data:
  assumes lines: "\<forall>l\<in>set ls. LF \<notin> set l"
    and pre: "prefix (wire (take j ls) @ y) (wire ls)"
    and y: "y \<noteq> []" "last y = LF"
  shows "\<exists>j2. j < j2 \<and> j2 \<le> length ls \<and> wire (take j ls) @ y = wire (take j2 ls)
           \<and> split_crlf y = drop j (take j2 ls) @ [[]]
           \<and> take j ls @ drop j (take j2 ls) = take j2 ls"
proof -
  from prefix_wire_LF[OF lines pre] y obtain j2 where
    j2: "0 < j2" "j2 \<le> length ls" "wire (take j ls) @ y = wire (take j2 ls)"
    by auto
  have "j < j2"
  proof (rule ccontr)
    assume "\<not> j < j2"
    then have "length (wire (take j2 ls)) \<le> length (wire (take j ls))"
      by (intro wire_take_mono) simp
    moreover have "length (wire (take j ls)) + length y = length (wire (take j2 ls))"
      using arg_cong[OF j2(3), of length] by simp
    moreover have "0 < length y" using y(1) by simp
    ultimately show False by linarith
  qed
  then have split: "take j2 ls = take j ls @ drop j (take j2 ls)"
    by (metis append_take_drop_id less_imp_le min.absorb1 take_take)
  then have "wire (take j2 ls) = wire (take j ls) @ wire (drop j (take j2 ls))"
    by (metis wire_append)
  with j2(3) have yw: "y = wire (drop j (take j2 ls))" by simp
  have "\<forall>l\<in>set (drop j (take j2 ls)). LF \<notin> set l"
    using lines by (meson in_set_dropD in_set_takeD)
  then have "split_crlf y = drop j (take j2 ls) @ [[]]"
    unfolding yw by (rule split_wire)
  with \<open>j < j2\<close> j2 split show ?thesis by auto
qed


lemma recv_chunk:
  "c \<noteq> [] \<Longrightarrow> length c \<le> SIZE \<Longrightarrow>
     recv SIZE (sock\<lparr>inbox := c # rest\<rparr>) = (Some c, sock\<lparr>inbox := rest\<rparr>)"
  by (simp add: recv_def)

lemma loop_step_continue:
  "c \<noteq> [] \<Longrightarrow> length c \<le> SIZE \<Longrightarrow> last (b @ c) \<noteq> LF \<Longrightarrow>
     send_loop (Suc n) (sock\<lparr>inbox := c # rest\<rparr>) d b = send_loop n (sock\<lparr>inbox := rest\<rparr>) d (b @ c)"
  by (simp add: recv_chunk)

lemma loop_step_boundary:
  assumes c: "c \<noteq> []" "length c \<le> SIZE"
    and lf: "last (b @ c) = LF"
    and sp: "d @ split_crlf (b @ c) = D @ [[]]"
    and D: "D \<noteq> []"
  shows "send_loop (Suc n) (sock\<lparr>inbox := c # rest\<rparr>) d b =
       (if take 4 (last D) = ''100-'' then Some (Return D, sock\<lparr>inbox := rest\<rparr>)
        else if error_re (last D)
          then Some (Raise (DynamipsError (last D)), sock\<lparr>inbox := rest\<rparr>)
        else send_loop n (sock\<lparr>inbox := rest\<rparr>) D [])"
  using c lf D by (simp add: recv_chunk[OF c] Let_def sp)

lemma loop_skips:
  assumes lines: "\<forall>l\<in>set ls. LF \<notin> set l"
  shows "\<forall>c\<in>set cs. c \<noteq> [] \<and> length c \<le> SIZE \<Longrightarrow> prefix (concat cs) (wire ls) \<Longrightarrow>
     \<forall>k j. 0 < k \<and> k \<le> length cs \<and> j < length ls
         \<and> concat (take k cs) = wire (take (Suc j) ls) \<longrightarrow> \<not> terminator (ls ! j) \<Longrightarrow>
     \<exists>j b. j \<le> length ls \<and> (b = [] \<or> last b \<noteq> LF) \<and> concat cs = wire (take j ls) @ b \<and>
       (\<forall>n sock rest. send_loop (n + length cs) (sock\<lparr>inbox := cs @ rest\<rparr>) [] []
           = send_loop n (sock\<lparr>inbox := rest\<rparr>) (take j ls) b)"
proof (induction cs rule: rev_induct)
  case Nil
  show ?case by (intro exI[of _ 0] exI[of _ "[]"]) simp
next
  case (snoc c cs)
  have c: "c \<noteq> []" "length c \<le> SIZE" using snoc.prems(1) by auto
  have pre: "prefix (concat cs @ c) (wire ls)" using snoc.prems(2) by simp
  have "\<exists>j b. j \<le> length ls \<and> (b = [] \<or> last b \<noteq> LF) \<and> concat cs = wire (take j ls) @ b \<and>
       (\<forall>n sock rest. send_loop (n + length cs) (sock\<lparr>inbox := cs @ rest\<rparr>) [] []
           = send_loop n (sock\<lparr>inbox := rest\<rparr>) (take j ls) b)"
  proof (rule snoc.IH)
    show "\<forall>c\<in>set cs. c \<noteq> [] \<and> length c \<le> SIZE" using snoc.prems(1) by simp
    show "prefix (concat cs) (wire ls)" using pre by (rule append_prefixD)
    show "\<forall>k j. 0 < k \<and> k \<le> length cs \<and> j < length ls
         \<and> concat (take k cs) = wire (take (Suc j) ls) \<longrightarrow> \<not> terminator (ls ! j)"
    proof (intro allI impI)
      fix k j
      assume h: "0 < k \<and> k \<le> length cs \<and> j < length ls \<and> concat (take k cs) = wire (take (Suc j) ls)"
      then have "concat (take k (cs @ [c])) = wire (take (Suc j) ls)" by simp
      moreover have "k \<le> length (cs @ [c])" using h by simp
      ultimately show "\<not> terminator (ls ! j)"
        using h snoc.prems(3)[rule_format, of k j] by blast
    qed
  qed
  then obtain j b where jb: "j \<le> length ls" "b = [] \<or> last b \<noteq> LF" "concat cs = wire (take j ls) @ b"
    and run: "\<And>n sock rest. send_loop (n + length cs) (sock\<lparr>inbox := cs @ rest\<rparr>) [] []
           = send_loop n (sock\<lparr>inbox := rest\<rparr>) (take j ls) b"
    by blast
  have run': "send_loop (n + length (cs @ [c])) (sock\<lparr>inbox := (cs @ [c]) @ rest\<rparr>) [] []
      = send_loop (Suc n) (sock\<lparr>inbox := c # rest\<rparr>) (take j ls) b" for n sock rest
    using run[where n = "Suc n" and sock = sock and rest = "c # rest"] by simp
  show ?case
  proof (cases "last (b @ c) = LF")
    case False
    have "send_loop (n + length (cs @ [c])) (sock\<lparr>inbox := (cs @ [c]) @ rest\<rparr>) [] []
      = send_loop n (sock\<lparr>inbox := rest\<rparr>) (take j ls) (b @ c)" for n sock rest
      unfolding run' using c False by (rule loop_step_continue)
    moreover have "concat (cs @ [c]) = wire (take j ls) @ (b @ c)" using jb(3) by simp
    moreover have "b @ c = [] \<or> last (b @ c) \<noteq> LF" using False by simp
    ultimately show ?thesis using jb(1)
      by (intro exI[of _ j] exI[of _ "b @ c"]) simp
  next
    case True
    have bc: "b @ c \<noteq> []" using c by simp
    have "prefix (wire (take j ls) @ (b @ c)) (wire ls)" using pre jb(3) by simp
    from boundary_data[OF lines this bc True] obtain j2 where
      j2: "j < j2" "j2 \<le> length ls" "wire (take j ls) @ (b @ c) = wire (take j2 ls)"
        "split_crlf (b @ c) = drop j (take j2 ls) @ [[]]"
        "take j ls @ drop j (take j2 ls) = take j2 ls"
      by blast
    have ne: "take j2 ls \<noteq> []" using j2 by auto
    have sp: "take j ls @ split_crlf (b @ c) = take j2 ls @ [[]]"
      using j2(4,5) by simp
    have lastl: "last (take j2 ls) = ls ! (j2 - 1)"
      using j2(1,2) ne by (simp add: last_conv_nth min_def)
    have "concat (take (length (cs @ [c])) (cs @ [c])) = wire (take (Suc (j2 - 1)) ls)"
      using j2 jb(3) by simp
    moreover have "0 < length (cs @ [c])" "length (cs @ [c]) \<le> length (cs @ [c])" "j2 - 1 < length ls"
      using j2(1,2) by simp_all
    ultimately have "\<not> terminator (ls ! (j2 - 1))"
      using snoc.prems(3)[rule_format, of "length (cs @ [c])" "j2 - 1"] by blast
    then have nt: "take 4 (last (take j2 ls)) \<noteq> ''100-''" "\<not> error_re (last (take j2 ls))"
      by (simp_all add: terminator_def lastl)
    have "send_loop (n + length (cs @ [c])) (sock\<lparr>inbox := (cs @ [c]) @ rest\<rparr>) [] []
      = send_loop n (sock\<lparr>inbox := rest\<rparr>) (take j2 ls) []" for n sock rest
      unfolding run' using loop_step_boundary[OF c True sp ne, where n = n and sock = sock and rest = rest] nt
      by simp
    moreover have "concat (cs @ [c]) = wire (take j2 ls) @ []" using j2(3) jb(3) by simp
    ultimately show ?thesis using j2(2)
      by (intro exI[of _ j2] exI[of _ "[]"]) simp
  qed
qed


lemma loop_reply:
  assumes lines: "\<forall>l\<in>set ls. LF \<notin> set l"
    and chunks: "\<forall>c\<in>set cs. c \<noteq> [] \<and> length c \<le> SIZE"
    and ls: "ls \<noteq> []"
    and all: "concat cs = wire ls"
    and nes: "no_early_stop cs ls"
    and fuel: "length cs \<le> fuel"
  shows "send_loop fuel (sock\<lparr>inbox := cs @ rest\<rparr>) [] [] =
       (if take 4 (last ls) = ''100-'' then Some (Return ls, sock\<lparr>inbox := rest\<rparr>)
        else if error_re (last ls)
          then Some (Raise (DynamipsError (last ls)), sock\<lparr>inbox := rest\<rparr>)
        else send_loop (fuel - length cs) (sock\<lparr>inbox := rest\<rparr>) ls [])"
proof -
  have "cs \<noteq> []" using all ls by (metis concat.simps(1) wire_eq_Nil)
  then obtain cs0 c where cs: "cs = cs0 @ [c]" by (metis rev_exhaust)
  have c: "c \<noteq> []" "length c \<le> SIZE" using chunks cs by auto
  have w: "concat cs0 @ c = wire ls" using all cs by simp
  have "\<exists>j b. j \<le> length ls \<and> (b = [] \<or> last b \<noteq> LF) \<and> concat cs0 = wire (take j ls) @ b \<and>
       (\<forall>n sock rest. send_loop (n + length cs0) (sock\<lparr>inbox := cs0 @ rest\<rparr>) [] []
           = send_loop n (sock\<lparr>inbox := rest\<rparr>) (take j ls) b)"
  proof (rule loop_skips[OF lines])
    show "\<forall>c\<in>set cs0. c \<noteq> [] \<and> length c \<le> SIZE" using chunks cs by simp
    show "prefix (concat cs0) (wire ls)" using w by (metis prefixI)
    show "\<forall>k j. 0 < k \<and> k \<le> length cs0 \<and> j < length ls
         \<and> concat (take k cs0) = wire (take (Suc j) ls) \<longrightarrow> \<not> terminator (ls ! j)"
    proof (intro allI impI)
      fix k j
      assume h: "0 < k \<and> k \<le> length cs0 \<and> j < length ls \<and> concat (take k cs0) = wire (take (Suc j) ls)"
      have "length (concat (take k cs0)) \<le> length (concat cs0)"
        by (metis append_take_drop_id concat_append le_add1 length_append)
      moreover have "length (concat cs0) + length c = length (wire ls)"
        using arg_cong[OF w, of length] by (simp only: length_append)
      moreover have "0 < length c" using c(1) by simp
      moreover have "length (concat (take k cs0)) = length (wire (take (Suc j) ls))"
        using h by simp
      ultimately have "length (wire (take (Suc j) ls)) < length (wire ls)"
        by linarith
      then have "Suc j \<noteq> length ls" by auto
      with h have "j \<in> {..<length ls - 1}" by auto
      moreover have "k \<in> {1..<length cs}" using h cs by auto
      moreover have "concat (take k cs) = wire (take (Suc j) ls)" using h cs by simp
      ultimately show "\<not> terminator (ls ! j)" using nes unfolding no_early_stop_def by blast
    qed
  qed
  then obtain j b where jb: "j \<le> length ls" "concat cs0 = wire (take j ls) @ b"
    and run: "\<And>n sock rest. send_loop (n + length cs0) (sock\<lparr>inbox := cs0 @ rest\<rparr>) [] []
           = send_loop n (sock\<lparr>inbox := rest\<rparr>) (take j ls) b"
    by blast
  obtain m where m: "fuel = Suc m + length cs0" "m = fuel - length cs"
    using fuel cs by (metis add_Suc_right add_Suc le_add_diff_inverse2 length_append_singleton)
  have step1: "send_loop fuel (sock\<lparr>inbox := cs @ rest\<rparr>) [] []
      = send_loop (Suc m) (sock\<lparr>inbox := c # rest\<rparr>) (take j ls) b"
    using run[where n = "Suc m" and sock = sock and rest = "c # rest"] by (simp add: m(1) cs)
  have bc: "b @ c \<noteq> []" using c by simp
  have eq: "wire (take j ls) @ (b @ c) = wire ls" using w jb(2) by simp
  then have pre: "prefix (wire (take j ls) @ (b @ c)) (wire ls)" by simp
  have "last (wire (take j ls) @ (b @ c)) = LF" unfolding eq using ls by (rule last_wire)
  then have lf: "last (b @ c) = LF" using bc by simp
  from boundary_data[OF lines pre bc lf] obtain j2 where
    j2: "j < j2" "j2 \<le> length ls" "wire (take j ls) @ (b @ c) = wire (take j2 ls)"
      "split_crlf (b @ c) = drop j (take j2 ls) @ [[]]"
      "take j ls @ drop j (take j2 ls) = take j2 ls"
    by blast
  have "wire ls = wire (take j2 ls) @ wire (drop j2 ls)"
    by (metis append_take_drop_id wire_append)
  moreover have "wire (take j2 ls) = wire ls" using j2(3)[symmetric] eq by (rule trans)
  ultimately have "wire (take j2 ls) @ wire (drop j2 ls) = wire (take j2 ls) @ []"
    by (metis append_Nil2)
  then have "wire (drop j2 ls) = []" by (simp only: same_append_eq)
  then have "drop j2 ls = []" by (simp only: wire_eq_Nil)
  then have full: "take j2 ls = ls" using j2(2) by simp
  have sp: "take j ls @ split_crlf (b @ c) = ls @ [[]]" using j2(4,5) full by simp
  show ?thesis
    unfolding step1 m(2)[symmetric]
    by (rule loop_step_boundary[OF c lf sp ls])
qed

lemma loop_partial:
  assumes lines: "\<forall>l\<in>set ls. LF \<notin> set l"
    and chunks: "\<forall>c\<in>set cs. c \<noteq> [] \<and> length c \<le> SIZE"
    and all: "concat cs = wire ls"
    and nes: "no_early_stop cs ls"
    and k: "k < length cs" "k < fuel"
    and npc: "\<not> peer_closed sock"
  shows "send_loop fuel (sock\<lparr>inbox := take k cs\<rparr>) [] [] =
           Some (Raise (DynamipsError ''timeout''), sock\<lparr>inbox := []\<rparr>)"
proof -
  have w: "concat (take k cs) @ concat (drop k cs) = wire ls"
    using all by (metis append_take_drop_id concat_append)
  have dne: "concat (drop k cs) \<noteq> []" using k(1) chunks
    by (metis Cons_nth_drop_Suc append_is_Nil_conv concat.simps(2) nth_mem)
  have "\<exists>j b. j \<le> length ls \<and> (b = [] \<or> last b \<noteq> LF) \<and> concat (take k cs) = wire (take j ls) @ b \<and>
       (\<forall>n sock rest. send_loop (n + length (take k cs)) (sock\<lparr>inbox := take k cs @ rest\<rparr>) [] []
           = send_loop n (sock\<lparr>inbox := rest\<rparr>) (take j ls) b)"
  proof (rule loop_skips[OF lines])
    show "\<forall>c\<in>set (take k cs). c \<noteq> [] \<and> length c \<le> SIZE" using chunks by (meson in_set_takeD)
    show "prefix (concat (take k cs)) (wire ls)" using w by (metis prefixI)
    show "\<forall>k' j. 0 < k' \<and> k' \<le> length (take k cs) \<and> j < length ls
         \<and> concat (take k' (take k cs)) = wire (take (Suc j) ls) \<longrightarrow> \<not> terminator (ls ! j)"
    proof (intro allI impI)
      fix k' j
      assume h: "0 < k' \<and> k' \<le> length (take k cs) \<and> j < length ls
         \<and> concat (take k' (take k cs)) = wire (take (Suc j) ls)"
      then have k': "k' \<le> k" by simp
      then have tk: "take k' (take k cs) = take k' cs" by (simp add: min_def)
      have "take k cs = take k' cs @ drop k' (take k cs)"
        using tk by (metis append_take_drop_id)
      then have "length (concat (take k' cs)) \<le> length (concat (take k cs))"
        by (metis concat_append le_add1 length_append)
      moreover have "length (concat (take k cs)) + length (concat (drop k cs)) = length (wire ls)"
        using arg_cong[OF w, of length] by (simp only: length_append)
      moreover have "0 < length (concat (drop k cs))" using dne by simp
      moreover have hc: "concat (take k' cs) = wire (take (Suc j) ls)"
        using h unfolding tk by blast
      moreover have "length (concat (take k' cs)) = length (wire (take (Suc j) ls))"
        using hc by (rule arg_cong)
      ultimately have "length (wire (take (Suc j) ls)) < length (wire ls)"
        by linarith
      then have "Suc j \<noteq> length ls" by auto
      with h have "j \<in> {..<length ls - 1}" by auto
      moreover have "k' \<in> {1..<length cs}" using h k' k(1) by auto
      ultimately show "\<not> terminator (ls ! j)" using hc nes unfolding no_early_stop_def by blast
    qed
  qed
  then obtain j b where
    run: "\<And>n sock rest. send_loop (n + length (take k cs)) (sock\<lparr>inbox := take k cs @ rest\<rparr>) [] []
           = send_loop n (sock\<lparr>inbox := rest\<rparr>) (take j ls) b"
    by blast
  obtain m where m: "fuel = Suc m + k" using k(2) by (metis add_Suc less_iff_Suc_add add.commute)
  have lk: "length (take k cs) = k" using k(1) by simp
  have f: "fuel = Suc m + length (take k cs)" using m lk by simp
  have A: "send_loop (Suc m) (sock\<lparr>inbox := []\<rparr>) (take j ls) b
      = Some (Raise (DynamipsError ''timeout''), sock\<lparr>inbox := []\<rparr>)"
    using npc by (simp add: recv_def)
  show ?thesis
    unfolding f using run[where n = "Suc m" and sock = sock and rest = "[]"] A
    by (simp only: append_Nil2)
qed

text \<open>Two plain cases in which no read ends behind an earlier terminator: the whole reply
  arrives in one read, or no earlier line looks like a terminator.\<close>

lemma no_early_stop_single: "no_early_stop [c] ls"
  by (simp add: no_early_stop_def)

lemma no_early_stop_plain:
  "\<forall>l\<in>set ls. \<not> terminator l \<Longrightarrow> no_early_stop cs (ls @ [final])"
  by (auto simp: no_early_stop_def nth_append)

lemma inbox_try_sendall [simp]: "inbox (try_sendall sock x) = inbox sock"
  by (simp add: try_sendall_def sendall_def)

lemma peer_closed_try_sendall [simp]: "peer_closed (try_sendall sock x) = peer_closed sock"
  by (simp add: try_sendall_def sendall_def)

lemma send_loop_inbox:
  "inbox sock = cs \<Longrightarrow> send_loop fuel sock data buf = send_loop fuel (sock\<lparr>inbox := cs\<rparr>) data buf"
  by (metis socket.surjective socket.update_convs(1))

lemma error_re_not_success: "error_re l \<Longrightarrow> take 4 l \<noteq> ''100-''"
  by (cases l rule: error_re.cases) auto

section \<open>The reply of \<^verbatim>\<open>send\<close>\<close>

text \<open>
  Claim C1, as the code has it. Let the reply be the lines \<open>ls @ [final]\<close>, none of which
  holds a line feed, where \<open>final\<close> begins with \<^verbatim>\<open>100-\<close>; let its bytes arrive in the reads
  \<open>cs\<close>, each of 1 to \<open>SIZE\<close> bytes, cut anywhere (also inside a line), such that no read
  ends exactly behind an earlier line that begins with \<^verbatim>\<open>100-\<close> or matches the error
  pattern. Then \<^verbatim>\<open>send\<close> (with \<^verbatim>\<open>NOSEND\<close> off and at least one unit of fuel per read)
  returns exactly these lines, in order, whatever the prefixes of the earlier lines are.
  Completion needs the whole terminator line: when only the first \<open>k\<close> reads arrive and the
  peer stays silent, \<^verbatim>\<open>send\<close> does not return a reply but raises the timeout error.
\<close>

theorem send_returns_reply:
  assumes ns: "\<not> NOSEND w"
    and inb: "inbox (s (hypervisors w d)) = cs @ rest"
    and chunks: "\<forall>c\<in>set cs. c \<noteq> [] \<and> length c \<le> SIZE"
    and lines: "\<forall>l\<in>set (ls @ [final]). LF \<notin> set l"
    and all: "concat cs = wire (ls @ [final])"
    and fin: "take 4 final = ''100-''"
    and nes: "no_early_stop cs (ls @ [final])"
    and fuel: "length cs \<le> fuel"
  shows "map_option fst (send fuel w d command) = Some (Return (ls @ [final]))
    \<and> (\<forall>k<length cs. \<not> peer_closed (s (hypervisors w d)) \<longrightarrow>
          map_option fst (send fuel (set_socket w d ((s (hypervisors w d))\<lparr>inbox := take k cs\<rparr>)) d command)
            = Some (Raise (DynamipsError ''timeout'')))"
proof (intro conjI allI impI)
  define sock where "sock = try_sendall (s (hypervisors w d)) (strip command @ [LF])"
  have "inbox sock = cs @ rest" using inb by (simp add: sock_def)
  then have "send_loop fuel sock [] [] = send_loop fuel (sock\<lparr>inbox := cs @ rest\<rparr>) [] []"
    by (rule send_loop_inbox)
  also have "\<dots> = Some (Return (ls @ [final]), sock\<lparr>inbox := rest\<rparr>)"
    using loop_reply[OF lines chunks _ all nes fuel, where sock = sock and rest = rest] fin by simp
  finally show "map_option fst (send fuel w d command) = Some (Return (ls @ [final]))"
    using ns by (simp add: send_def sock_def[symmetric])
next
  fix k
  assume k: "k < length cs" and npc: "\<not> peer_closed (s (hypervisors w d))"
  define w' where "w' = set_socket w d ((s (hypervisors w d))\<lparr>inbox := take k cs\<rparr>)"
  define sock where "sock = try_sendall (s (hypervisors w' d)) (strip command @ [LF])"
  have "inbox sock = take k cs" by (simp add: sock_def w'_def set_socket_def)
  then have "send_loop fuel sock [] [] = send_loop fuel (sock\<lparr>inbox := take k cs\<rparr>) [] []"
    by (rule send_loop_inbox)
  moreover have "\<not> peer_closed sock" using npc by (simp add: sock_def w'_def set_socket_def)
  moreover have "k < fuel" using k fuel by simp
  ultimately have "send_loop fuel sock [] [] = Some (Raise (DynamipsError ''timeout''), sock\<lparr>inbox := []\<rparr>)"
    using loop_partial[OF lines chunks all nes k, where sock = sock and fuel = fuel] by simp
  moreover have "\<not> NOSEND w'" using ns by (simp add: w'_def set_socket_def)
  ultimately show "map_option fst (send fuel w' d command) = Some (Raise (DynamipsError ''timeout''))"
    by (simp add: send_def sock_def[symmetric])
qed

theorem send_returns_reply_witness:
  "no_early_stop [''100-a'' @ crlf @ ''10'', ''0-b'' @ crlf] ([''100-a''] @ [''100-b''])
   \<and> concat [''100-a'' @ crlf @ ''10'', ''0-b'' @ crlf] = wire ([''100-a''] @ [''100-b''])
   \<and> map_option fst (send 2 (receiving 0 [''100-a'' @ crlf @ ''10'', ''0-b'' @ crlf]) 0
        ''hypervisor version'') = Some (Return ([''100-a''] @ [''100-b'']))"
proof -
  let ?cs = "[''100-a'' @ crlf @ ''10'', ''0-b'' @ crlf]"
  have ns: "\<not> NOSEND (receiving 0 ?cs)"
    by (simp add: receiving_def blank_world_def set_socket_def)
  have inb: "inbox (s (hypervisors (receiving 0 ?cs) 0)) = ?cs @ []"
    by (simp add: receiving_def blank_world_def set_socket_def)
  have chunks: "\<forall>c\<in>set ?cs. c \<noteq> [] \<and> length c \<le> SIZE"
    by (simp add: SIZE_def crlf_def)
  have lines: "\<forall>l\<in>set ([''100-a''] @ [''100-b'']). LF \<notin> set l"
    by (simp add: LF_def)
  have all: "concat ?cs = wire ([''100-a''] @ [''100-b''])"
    by (simp add: wire_def crlf_def)
  have fin: "take 4 ''100-b'' = ''100-''" by simp
  have nes: "no_early_stop ?cs ([''100-a''] @ [''100-b''])"
    by (simp add: no_early_stop_def wire_def crlf_def)
  have fuel: "length ?cs \<le> 2" by simp
  from send_returns_reply[OF ns inb chunks lines all fin nes fuel, THEN conjunct1, of "''hypervisor version''"]
    nes all
  show ?thesis by blast
qed

text \<open>The claim as it was stated fails where a read ends behind an earlier line that begins
  with \<^verbatim>\<open>100-\<close>: the reply is cut short there.\<close>

theorem send_returns_reply_counterexample:
  "concat [''100-a'' @ crlf, ''100-b'' @ crlf] = wire [''100-a'', ''100-b'']
   \<and> map_option fst (send 2 (receiving 0 [''100-a'' @ crlf, ''100-b'' @ crlf]) 0
        ''hypervisor version'') = Some (Return [''100-a''])
   \<and> [''100-a''] \<noteq> [''100-a'', ''100-b'']"
  by (simp add: receiving_def blank_world_def silent_socket_def set_socket_def send_def
      try_sendall_def sendall_def recv_def SIZE_def Let_def wire_def crlf_def CR_def LF_def
      numeral_2_eq_2 strip_def is_space_def)

text \<open>The scenario of the specification: the terminator \<^verbatim>\<open>100-\<close> split into the reads
  \<^verbatim>\<open>10\<close> and \<^verbatim>\<open>0-\<close>, and the first read alone.\<close>

lemma send_split_terminator_scenario:
  "map_option fst (send 2 (receiving 0 [''10'', ''0-'' @ crlf]) 0 ''hypervisor version'')
     = Some (Return [''100-''])"
  "map_option fst (send 2 (receiving 0 [''10'']) 0 ''hypervisor version'')
     = Some (Raise (DynamipsError ''timeout''))"
  by (simp_all add: receiving_def blank_world_def silent_socket_def set_socket_def send_def
      try_sendall_def sendall_def recv_def SIZE_def Let_def crlf_def CR_def LF_def
      numeral_2_eq_2 strip_def is_space_def)

text \<open>
  Claim C2, as the code has it. With the reply and the reads as in C1, but a last line
  that matches the error pattern, \<^verbatim>\<open>send\<close> raises \<^verbatim>\<open>DynamipsError\<close> with exactly that
  line as its message, also when earlier lines begin with \<^verbatim>\<open>100-\<close>, as long as no read
  ends exactly behind such an earlier line.
\<close>

theorem send_raises_error_line:
  assumes ns: "\<not> NOSEND w"
    and inb: "inbox (s (hypervisors w d)) = cs @ rest"
    and chunks: "\<forall>c\<in>set cs. c \<noteq> [] \<and> length c \<le> SIZE"
    and lines: "\<forall>l\<in>set (ls @ [final]). LF \<notin> set l"
    and all: "concat cs = wire (ls @ [final])"
    and fin: "error_re final"
    and nes: "no_early_stop cs (ls @ [final])"
    and fuel: "length cs \<le> fuel"
  shows "map_option fst (send fuel w d command) = Some (Raise (DynamipsError final))"
proof -
  define sock where "sock = try_sendall (s (hypervisors w d)) (strip command @ [LF])"
  have "inbox sock = cs @ rest" using inb by (simp add: sock_def)
  then have "send_loop fuel sock [] [] = send_loop fuel (sock\<lparr>inbox := cs @ rest\<rparr>) [] []"
    by (rule send_loop_inbox)
  also have "\<dots> = Some (Raise (DynamipsError final), sock\<lparr>inbox := rest\<rparr>)"
    using loop_reply[OF lines chunks _ all nes fuel, where sock = sock and rest = rest]
      fin error_re_not_success[OF fin] by simp
  finally show ?thesis
    using ns by (simp add: send_def sock_def[symmetric])
qed

theorem send_raises_error_line_witness:
  "no_early_stop [''100-a'' @ crlf @ ''20'', ''9-unknown'' @ crlf] ([''100-a''] @ [''209-unknown''])
   \<and> error_re ''209-unknown''
   \<and> map_option fst (send 2 (receiving 0 [''100-a'' @ crlf @ ''20'', ''9-unknown'' @ crlf]) 0
        ''vm start r1'') = Some (Raise (DynamipsError ''209-unknown''))"
proof -
  let ?cs = "[''100-a'' @ crlf @ ''20'', ''9-unknown'' @ crlf]"
  have ns: "\<not> NOSEND (receiving 0 ?cs)"
    by (simp add: receiving_def blank_world_def set_socket_def)
  have inb: "inbox (s (hypervisors (receiving 0 ?cs) 0)) = ?cs @ []"
    by (simp add: receiving_def blank_world_def set_socket_def)
  have chunks: "\<forall>c\<in>set ?cs. c \<noteq> [] \<and> length c \<le> SIZE"
    by (simp add: SIZE_def crlf_def)
  have lines: "\<forall>l\<in>set ([''100-a''] @ [''209-unknown'']). LF \<notin> set l"
    by (simp add: LF_def)
  have all: "concat ?cs = wire ([''100-a''] @ [''209-unknown''])"
    by (simp add: wire_def crlf_def)
  have fin: "error_re ''209-unknown''" by (simp add: is_digit_def)
  have nes: "no_early_stop ?cs ([''100-a''] @ [''209-unknown''])"
    by (simp add: no_early_stop_def wire_def crlf_def)
  have fuel: "length ?cs \<le> 2" by simp
  from send_raises_error_line[OF ns inb chunks lines all fin nes fuel, of "''vm start r1''"] nes fin
  show ?thesis by blast
qed

text \<open>The claim as it was stated fails where a read ends behind an earlier line that begins
  with \<^verbatim>\<open>100-\<close>: \<^verbatim>\<open>send\<close> returns there and the error line is never read.\<close>

theorem send_raises_error_line_counterexample:
  "concat [''100-a'' @ crlf, ''209-unknown'' @ crlf] = wire [''100-a'', ''209-unknown'']
   \<and> error_re ''209-unknown''
   \<and> map_option fst (send 2 (receiving 0 [''100-a'' @ crlf, ''209-unknown'' @ crlf]) 0
        ''vm start r1'') = Some (Return [''100-a''])"
  by (simp add: receiving_def blank_world_def silent_socket_def set_socket_def send_def
      try_sendall_def sendall_def recv_def SIZE_def Let_def wire_def crlf_def CR_def LF_def
      numeral_2_eq_2 strip_def is_space_def is_digit_def)

section \<open>A connection that closes without data\<close>

lemma send_loop_Return_nonempty:
  "send_loop fuel sock data buf = Some (Return r, sock') \<Longrightarrow> r \<noteq> []"
proof (induction fuel arbitrary: sock data buf)
  case 0
  then show ?case by simp
next
  case (Suc fuel)
  then show ?case
    by (auto simp: Let_def split: prod.splits option.splits if_splits)
qed

lemma send_loop_Raise:
  "send_loop fuel sock data buf = Some (Raise e, sock') \<Longrightarrow>
     e = IndexError \<or> e = DynamipsError ''timeout'' \<or> (\<exists>m. e = DynamipsError m \<and> error_re m)"
proof (induction fuel arbitrary: sock data buf)
  case 0
  then show ?case by simp
next
  case (Suc fuel)
  then show ?case
    by (auto simp: Let_def split: prod.splits option.splits if_splits)
qed

lemma send_Raise:
  "send fuel w d command = Some (Raise e, w') \<Longrightarrow>
     e = IndexError \<or> e = DynamipsError ''timeout'' \<or> (\<exists>m. e = DynamipsError m \<and> error_re m)"
  by (auto simp: send_def split: if_splits option.splits prod.splits outcome.splits
      dest: send_loop_Raise send_loop_Return_nonempty)

lemma send_never_no_data:
  "send fuel w d command \<noteq> Some (Raise (DynamipsError ''no data''), w')"
  using send_Raise[of fuel w d command "DynamipsError ''no data''" w'] by auto

lemma send_loop_hangs:
  assumes "inbox sock = []" and "peer_closed sock" and "buf \<noteq> []" and "last buf \<noteq> LF"
  shows "send_loop fuel sock data buf = None"
  using assms by (induction fuel) (simp_all add: recv_def)

lemma send_partial_line_then_closed:
  assumes ns: "\<not> NOSEND w"
    and inb: "inbox (s (hypervisors w d)) = [c]"
    and c: "c \<noteq> []" "length c \<le> SIZE" "last c \<noteq> LF"
    and closed: "peer_closed (s (hypervisors w d))"
  shows "send fuel w d command = None"
proof -
  define sock where "sock = try_sendall (s (hypervisors w d)) (strip command @ [LF])"
  have i: "inbox sock = [c]" and p: "peer_closed sock" using inb closed by (simp_all add: sock_def)
  have "send_loop fuel sock [] [] = None"
  proof (cases fuel)
    case 0
    then show ?thesis by simp
  next
    case (Suc n)
    have "send_loop (Suc n) sock [] [] = send_loop (Suc n) (sock\<lparr>inbox := [c]\<rparr>) [] []"
      using i by (rule send_loop_inbox)
    also have "\<dots> = send_loop n (sock\<lparr>inbox := []\<rparr>) [] ([] @ c)"
      using c by (intro loop_step_continue) simp_all
    also have "\<dots> = None"
      using c p by (intro send_loop_hangs) simp_all
    finally show ?thesis using Suc by simp
  qed
  then show ?thesis using ns by (simp add: send_def sock_def[symmetric])
qed

text \<open>
  Claim C9 fails on the code. When the peer closes the connection before any byte has
  arrived, \<^verbatim>\<open>recv\<close> returns the empty string, the buffer is empty and \<^verbatim>\<open>buf[-1]\<close>
  raises \<^verbatim>\<open>IndexError\<close>: not the \<^verbatim>\<open>DynamipsError("no data")\<close> that the check behind the
  loop was written to raise. That check is never reached with an empty list
  (\<open>send_never_no_data\<close>), and after a partial line the loop spins for ever
  (\<open>send_partial_line_then_closed\<close>).
\<close>

theorem send_peer_closed_IndexError:
  "map_option fst (send (Suc fuel) (set_socket (w\<lparr>NOSEND := False\<rparr>) d (sock\<lparr>inbox := [], peer_closed := True\<rparr>)) d command)
     = Some (Raise IndexError)"
  by (simp add: send_def set_socket_def recv_def try_sendall_def sendall_def)

section \<open>Compatibility of the two ends of a link\<close>

lemma kind_family:
  "a \<in> set kinds \<Longrightarrow>
     (family_of a = Some Ethernet \<and> a \<in> set ethernets \<and> a \<notin> set serials \<and> a \<notin> set atms \<and> \<not> sublist a poss)
   \<or> (family_of a = Some Serial \<and> a \<notin> set ethernets \<and> a \<in> set serials \<and> a \<notin> set atms \<and> \<not> sublist a poss)
   \<or> (family_of a = Some ATM \<and> a \<notin> set ethernets \<and> a \<notin> set serials \<and> a \<in> set atms \<and> \<not> sublist a poss)
   \<or> (family_of a = Some POS \<and> a \<notin> set ethernets \<and> a \<notin> set serials \<and> a \<notin> set atms \<and> sublist a poss)"
  unfolding kinds_def
  by (auto simp: family_of_def ethernets_def serials_def atms_def poss_def sublist_code)

text \<open>Outside the supported names the substring test of \<^verbatim>\<open>poss\<close> accepts more than the
  name \<^verbatim>\<open>PA-POS-OC3\<close>.\<close>

lemma poss_is_a_string:
  "a_adapter (adapters w x) = ''PA'' \<Longrightarrow> a_adapter (adapters w y) = ''OC3''
     \<Longrightarrow> validate_connect w (Adapter x) (Adapter y) = Return ()"
  by (simp add: validate_connect_def get_adapter_def ethernets_def serials_def atms_def poss_def
      sublist_code)

text \<open>
  Claim C3. For two interfaces whose kinds are among the adapter names of the module's
  adapter, bridge and switch classes, \<^verbatim>\<open>validate_connect\<close> accepts the pair exactly when
  both kinds belong to the same family and the two are not both bridges.
\<close>

theorem validate_connect_same_family:
  assumes "get_adapter w int1 = Some a" and "get_adapter w int2 = Some b"
    and "a \<in> set kinds" and "b \<in> set kinds"
  shows "(validate_connect w int1 int2 = Return ())
           = (family_of a = family_of b \<and> \<not> (a = ''Bridge'' \<and> b = ''Bridge''))"
  using kind_family[OF assms(3)] kind_family[OF assms(4)] assms(1,2)
  by (auto simp: validate_connect_def)

theorem validate_connect_same_family_witness:
  "''PA-FE-TX'' \<in> set kinds \<and> ''Bridge'' \<in> set kinds
   \<and> family_of ''PA-FE-TX'' = family_of ''Bridge''
   \<and> validate_connect lab (Adapter 0) (Bridge 0) = Return ()"
proof -
  have a: "get_adapter lab (Adapter 0) = Some ''PA-FE-TX''"
    by (simp add: get_adapter_def lab_def)
  have b: "get_adapter lab (Bridge 0) = Some ''Bridge''"
    by (simp add: get_adapter_def)
  have ka: "''PA-FE-TX'' \<in> set kinds" and kb: "''Bridge'' \<in> set kinds"
    by (simp_all add: kinds_def)
  have f: "family_of ''PA-FE-TX'' = family_of ''Bridge''"
    by (simp add: family_of_def ethernets_def)
  from validate_connect_same_family[OF a b ka kb] f ka kb show ?thesis by simp
qed

text \<open>
  Claim C10. Validation is symmetric: it succeeds on a pair exactly when it succeeds on
  the swapped pair, and raises on a pair exactly when it raises on the swapped pair.
\<close>

theorem validate_connect_symmetric:
  "(validate_connect w a b = Return ()) = (validate_connect w b a = Return ())
   \<and> ((\<exists>e. validate_connect w a b = Raise e) = (\<exists>e. validate_connect w b a = Raise e))"
  by (auto simp: validate_connect_def split: option.splits)

section \<open>What the steps of \<^verbatim>\<open>gen_connect\<close> change\<close>

lemma and_thenE:
  assumes "and_then m f = Some (r, w')"
  obtains (raised) e where "m = Some (Raise e, w')" "r = Raise e"
    | (returned) x w1 where "m = Some (Return x, w1)" "f x w1 = Some (r, w')"
  using assms by (auto simp: and_then_def split: option.splits prod.splits outcome.splits)

lemma set_socket_same [simp]: "set_socket w d (s (hypervisors w d)) = w"
  by (simp add: set_socket_def)

lemma set_socket_fields [simp]:
  "NOSEND (set_socket w d sock) = NOSEND w"
  "NIO_udp_instance (set_socket w d sock) = NIO_udp_instance w"
  "routers (set_socket w d sock) = routers w"
  "adapters (set_socket w d sock) = adapters w"
  "bridges (set_socket w d sock) = bridges w"
  "frsws (set_socket w d sock) = frsws w"
  "atmsws (set_socket w d sock) = atmsws w"
  "ethsws (set_socket w d sock) = ethsws w"
  "udp (hypervisors (set_socket w d sock) x) = udp (hypervisors w x)"
  "host (hypervisors (set_socket w d sock) x) = host (hypervisors w x)"
  "devices (hypervisors (set_socket w d sock) x) = devices (hypervisors w x)"
  by (simp_all add: set_socket_def)

lemma send_world: "send fuel w d c = Some (r, w') \<Longrightarrow> \<exists>sock. w' = set_socket w d sock"
  by (auto simp: send_def split: if_splits option.splits prod.splits outcome.splits
      intro: set_socket_same[symmetric])

lemma bound_nio_set_socket [simp]: "bound_nio (set_socket w d sock) = bound_nio w"
  by (auto simp: bound_nio_def fun_eq_iff split: objref.splits option.splits)

lemma get_adapter_set_socket [simp]: "get_adapter (set_socket w d sock) = get_adapter w"
  by (auto simp: get_adapter_def fun_eq_iff split: objref.splits)

lemma NIO_udp_world:
  "NIO_udp fuel w d l h r = Some (res, w') \<Longrightarrow>
     \<exists>sock. w' = set_socket (w\<lparr>NIO_udp_instance := Suc (NIO_udp_instance w)\<rparr>) d sock"
  by (auto simp: NIO_udp_def Let_def elim!: and_thenE dest: send_world)

lemma NIO_udp_Return:
  "NIO_udp fuel w d l h r = Some (Return n, w') \<Longrightarrow>
     n = \<lparr>nio_d = d, udplocal = l, remotehost = h, udpremote = r,
          nio_name = ''nio_udp'' @ str_int (int (NIO_udp_instance w))\<rparr>"
  by (auto simp: NIO_udp_def Let_def elim!: and_thenE)


lemma udp_of_set_socket [simp]: "udp_of (set_socket w d sock) = udp_of w"
  by (simp add: udp_of_def fun_eq_iff)

lemma udp_of_updates [simp]:
  "udp_of (w\<lparr>NIO_udp_instance := n\<rparr>) = udp_of w"
  "udp_of (w\<lparr>adapters := a\<rparr>) = udp_of w"
  "udp_of (w\<lparr>bridges := b\<rparr>) = udp_of w"
  "udp_of (w\<lparr>frsws := f\<rparr>) = udp_of w"
  "udp_of (w\<lparr>atmsws := f\<rparr>) = udp_of w"
  "udp_of (w\<lparr>ethsws := f\<rparr>) = udp_of w"
  by (simp_all add: udp_of_def fun_eq_iff)

lemma bound_nio_updates [simp]:
  "bound_nio (w\<lparr>NIO_udp_instance := n\<rparr>) = bound_nio w"
  "bound_nio (set_udp w d v) = bound_nio w"
  by (auto simp: bound_nio_def set_udp_def fun_eq_iff split: objref.splits option.splits)

lemma send_udp_of: "send fuel w d c = Some (r, w') \<Longrightarrow> udp_of w' = udp_of w"
  by (auto dest: send_world)

lemma NIO_udp_udp_of: "NIO_udp fuel w d l h r = Some (res, w') \<Longrightarrow> udp_of w' = udp_of w"
  by (auto dest: NIO_udp_world)

lemma Bridge_nio_udp_of: "Bridge_nio fuel w b nio = Some (r, w') \<Longrightarrow> udp_of w' = udp_of w"
  by (auto simp: Bridge_nio_def elim!: and_thenE dest!: send_world)

lemma call_nio_udp_of: "call_nio fuel w obj port nio = Some (r, w') \<Longrightarrow> udp_of w' = udp_of w"
  by (cases obj)
     (auto simp: call_nio_def BaseAdapter_nio_def FRSW_nio_def ATMSW_nio_def ETHSW_nio_def Let_def
        elim!: and_thenE dest!: send_world split: option.splits if_splits)

lemma Bridge_nio_bound:
  assumes "Bridge_nio fuel w b nio = Some (Return (), w')"
  shows "bound_nio w' (Bridge b) port = Some nio"
    and "obj' \<noteq> Bridge b \<Longrightarrow> bound_nio w' obj' port' = bound_nio w obj' port'"
    and "NIO_udp_instance w' = NIO_udp_instance w"
  using assms
  by (auto simp: Bridge_nio_def bound_nio_def elim!: and_thenE dest!: send_world
      split: objref.splits option.splits if_splits)

lemma call_nio_bound:
  assumes "call_nio fuel w obj port nio = Some (Return (), w')"
  shows "bound_nio w' obj port = Some nio"
    and "obj' \<noteq> obj \<or> port' \<noteq> port \<Longrightarrow> bound_nio w' obj' port' = bound_nio w obj' port'"
    and "NIO_udp_instance w' = NIO_udp_instance w"
    and "\<forall>b. obj \<noteq> Bridge b"
  using assms
  by (cases obj;
      auto simp: call_nio_def BaseAdapter_nio_def FRSW_nio_def ATMSW_nio_def ETHSW_nio_def Let_def
        bound_nio_def elim!: and_thenE dest!: send_world
        split: objref.splits option.splits if_splits)+


lemma udp_of_set_udp: "udp_of (set_udp w d v) = (udp_of w)(d := v)"
  by (simp add: udp_of_def set_udp_def fun_eq_iff)

lemma set_udp_fields [simp]:
  "NIO_udp_instance (set_udp w d v) = NIO_udp_instance w"
  "host (hypervisors (set_udp w d v) x) = host (hypervisors w x)"
  by (simp_all add: set_udp_def)

lemma gen_connect_invalid:
  "validate_connect w sa da = Raise e \<Longrightarrow>
     gen_connect fuel w sd sa sp dd da dp = Some (Raise e, w)"
  by (simp add: gen_connect_def)

lemma gen_connect_valid:
  "validate_connect w sa da = Return () \<Longrightarrow>
     gen_connect fuel w sd sa sp dd da dp =
      (let same = (host (hypervisors w sd) = host (hypervisors w dd));
           src_ip = (if same then ''127.0.0.1'' else host (hypervisors w sd));
           dst_ip = (if same then ''127.0.0.1'' else host (hypervisors w dd));
           src_udp = udp (hypervisors w sd);
           dst_udp = (if dd = sd then udp (hypervisors w sd) + 1 else udp (hypervisors w dd));
           w0 = set_udp (set_udp w sd (src_udp + 1)) dd (dst_udp + 1)
       in and_then (NIO_udp fuel w0 sd src_udp dst_ip dst_udp) (\<lambda>src_nio w.
          and_then (NIO_udp fuel w dd dst_udp src_ip src_udp) (\<lambda>dst_nio w.
          and_then (call_nio fuel w sa sp src_nio) (\<lambda>_ w.
            (case da of
               Bridge b \<Rightarrow> Bridge_nio fuel w b dst_nio
             | _ \<Rightarrow> call_nio fuel w da dp dst_nio)))))"
  by (simp add: gen_connect_def Let_def set_udp_def)

lemma gen_connect_validated:
  "gen_connect fuel w sd sa sp dd da dp = Some (Return (), w') \<Longrightarrow>
     validate_connect w sa da = Return ()"
  by (cases "validate_connect w sa da") (simp_all add: gen_connect_invalid)

lemma last_op_udp_of:
  "(case da of Bridge b \<Rightarrow> Bridge_nio fuel w b n | _ \<Rightarrow> call_nio fuel w da dp n) = Some (r, w')
     \<Longrightarrow> udp_of w' = udp_of w"
  by (cases da) (auto dest: Bridge_nio_udp_of call_nio_udp_of)

lemma gen_connect_udp_of:
  assumes g: "gen_connect fuel w sd sa sp dd da dp = Some (r, w')"
    and v: "validate_connect w sa da = Return ()"
  shows "udp_of w' = udp_of (set_udp (set_udp w sd (udp (hypervisors w sd) + 1)) dd
            ((if dd = sd then udp (hypervisors w sd) + 1 else udp (hypervisors w dd)) + 1))"
  using g unfolding gen_connect_valid[OF v] Let_def
  by (elim and_thenE)
     (auto dest!: NIO_udp_udp_of call_nio_udp_of last_op_udp_of)

lemma gen_connect_Return:
  assumes g: "gen_connect fuel w sd sa sp dd da dp = Some (Return (), w')"
  shows "bound_nio w' da dp =
           Some \<lparr>nio_d = dd,
                 udplocal = (if dd = sd then udp (hypervisors w sd) + 1 else udp (hypervisors w dd)),
                 remotehost = (if host (hypervisors w sd) = host (hypervisors w dd)
                               then ''127.0.0.1'' else host (hypervisors w sd)),
                 udpremote = udp (hypervisors w sd),
                 nio_name = ''nio_udp'' @ str_int (int (Suc (NIO_udp_instance w)))\<rparr>"
    and "sa \<noteq> da \<or> sp \<noteq> dp \<Longrightarrow> bound_nio w' sa sp =
           Some \<lparr>nio_d = sd,
                 udplocal = udp (hypervisors w sd),
                 remotehost = (if host (hypervisors w sd) = host (hypervisors w dd)
                               then ''127.0.0.1'' else host (hypervisors w dd)),
                 udpremote = (if dd = sd then udp (hypervisors w sd) + 1 else udp (hypervisors w dd)),
                 nio_name = ''nio_udp'' @ str_int (int (NIO_udp_instance w))\<rparr>"
    and "NIO_udp_instance w' = NIO_udp_instance w + 2"
proof -
  have v: "validate_connect w sa da = Return ()" by (rule gen_connect_validated[OF g])
  define S where "S = udp (hypervisors w sd)"
  define D where "D = (if dd = sd then udp (hypervisors w sd) + 1 else udp (hypervisors w dd))"
  define src_ip where "src_ip = (if host (hypervisors w sd) = host (hypervisors w dd)
                               then ''127.0.0.1'' else host (hypervisors w sd))"
  define dst_ip where "dst_ip = (if host (hypervisors w sd) = host (hypervisors w dd)
                               then ''127.0.0.1'' else host (hypervisors w dd))"
  define w0 where "w0 = set_udp (set_udp w sd (S + 1)) dd (D + 1)"
  from g obtain n1 w1 n2 w2 w3 where
    1: "NIO_udp fuel w0 sd S dst_ip D = Some (Return n1, w1)" and
    2: "NIO_udp fuel w1 dd D src_ip S = Some (Return n2, w2)" and
    3: "call_nio fuel w2 sa sp n1 = Some (Return (), w3)" and
    4: "(case da of Bridge b \<Rightarrow> Bridge_nio fuel w3 b n2 | _ \<Rightarrow> call_nio fuel w3 da dp n2)
          = Some (Return (), w')"
    unfolding gen_connect_valid[OF v] Let_def w0_def S_def D_def src_ip_def dst_ip_def
    by (elim and_thenE) auto
  have i0: "NIO_udp_instance w0 = NIO_udp_instance w" and b0: "bound_nio w0 = bound_nio w"
    by (simp_all add: w0_def)
  from NIO_udp_world[OF 1] obtain sock1 where
    w1: "w1 = set_socket (w0\<lparr>NIO_udp_instance := Suc (NIO_udp_instance w0)\<rparr>) sd sock1" by blast
  have i1: "NIO_udp_instance w1 = Suc (NIO_udp_instance w)" and b1: "bound_nio w1 = bound_nio w"
    by (simp_all add: w1 i0 b0)
  from NIO_udp_world[OF 2] obtain sock2 where
    w2: "w2 = set_socket (w1\<lparr>NIO_udp_instance := Suc (NIO_udp_instance w1)\<rparr>) dd sock2" by blast
  have i2: "NIO_udp_instance w2 = NIO_udp_instance w + 2" and b2: "bound_nio w2 = bound_nio w"
    by (simp_all add: w2 i1 b1)
  have n1: "n1 = \<lparr>nio_d = sd, udplocal = S, remotehost = dst_ip, udpremote = D,
                  nio_name = ''nio_udp'' @ str_int (int (NIO_udp_instance w))\<rparr>"
    using NIO_udp_Return[OF 1] by (simp add: i0)
  have n2: "n2 = \<lparr>nio_d = dd, udplocal = D, remotehost = src_ip, udpremote = S,
                  nio_name = ''nio_udp'' @ str_int (int (Suc (NIO_udp_instance w)))\<rparr>"
    using NIO_udp_Return[OF 2] by (simp add: i1)
  have src3: "bound_nio w3 sa sp = Some n1" and i3: "NIO_udp_instance w3 = NIO_udp_instance w2"
    and nb: "\<forall>b. sa \<noteq> Bridge b"
    using call_nio_bound[OF 3] by blast+
  have dst: "bound_nio w' da dp = Some n2"
    using 4 by (cases da) (auto dest: Bridge_nio_bound(1) call_nio_bound(1))
  have i4: "NIO_udp_instance w' = NIO_udp_instance w3"
    using 4 by (cases da) (auto dest: Bridge_nio_bound(3) call_nio_bound(3))
  have frame: "bound_nio w' sa sp = bound_nio w3 sa sp" if "sa \<noteq> da \<or> sp \<noteq> dp"
  proof (cases da)
    case (Bridge b)
    then have "Bridge_nio fuel w3 b n2 = Some (Return (), w')" using 4 by simp
    moreover have "sa \<noteq> Bridge b" using nb by blast
    ultimately show ?thesis by (rule Bridge_nio_bound(2))
  qed (use 4 that in \<open>auto dest: call_nio_bound(2)\<close>)
  show "bound_nio w' da dp =
           Some \<lparr>nio_d = dd,
                 udplocal = (if dd = sd then udp (hypervisors w sd) + 1 else udp (hypervisors w dd)),
                 remotehost = (if host (hypervisors w sd) = host (hypervisors w dd)
                               then ''127.0.0.1'' else host (hypervisors w sd)),
                 udpremote = udp (hypervisors w sd),
                 nio_name = ''nio_udp'' @ str_int (int (Suc (NIO_udp_instance w)))\<rparr>"
    using dst unfolding n2 D_def S_def src_ip_def .
  show "NIO_udp_instance w' = NIO_udp_instance w + 2" using i4 i3 i2 by simp
  show "bound_nio w' sa sp =
           Some \<lparr>nio_d = sd,
                 udplocal = udp (hypervisors w sd),
                 remotehost = (if host (hypervisors w sd) = host (hypervisors w dd)
                               then ''127.0.0.1'' else host (hypervisors w dd)),
                 udpremote = (if dd = sd then udp (hypervisors w sd) + 1 else udp (hypervisors w dd)),
                 nio_name = ''nio_udp'' @ str_int (int (NIO_udp_instance w))\<rparr>"
    if "sa \<noteq> da \<or> sp \<noteq> dp"
    using frame[OF that] src3 unfolding n1 D_def S_def dst_ip_def by simp
qed

section \<open>The UDP port counter\<close>

text \<open>
  Claim C4. Whatever the outcome of \<^verbatim>\<open>gen_connect\<close> (a return or any exception of a
  later backend call), once validation has passed the counter of every hypervisor has
  advanced by exactly the number of allocations made on it, one for the source side and
  one for the destination side, and it is unchanged when validation fails: it never
  decreases and nothing is rolled back. When the call returns, the local port of each
  endpoint it attached is the value the counter of its hypervisor had when the port was
  taken, so every later allocation, which starts at the advanced counter, returns a
  larger port.
\<close>

theorem gen_connect_udp_counter:
  assumes g: "gen_connect fuel w sd sa sp dd da dp = Some (r, w')"
  shows "udp (hypervisors w' x) =
           udp (hypervisors w x)
           + (if validate_connect w sa da = Return ()
              then (if x = sd then 1 else 0) + (if x = dd then 1 else 0) else 0)
       \<and> (r = Return () \<longrightarrow>
           map_option udplocal (bound_nio w' da dp)
             = Some (if dd = sd then udp (hypervisors w sd) + 1 else udp (hypervisors w dd))
           \<and> (sa \<noteq> da \<or> sp \<noteq> dp \<longrightarrow>
                map_option udplocal (bound_nio w' sa sp) = Some (udp (hypervisors w sd))))"
proof (intro conjI impI)
  show "udp (hypervisors w' x) =
           udp (hypervisors w x)
           + (if validate_connect w sa da = Return ()
              then (if x = sd then 1 else 0) + (if x = dd then 1 else 0) else 0)"
  proof (cases "validate_connect w sa da")
    case (Return u)
    then have v: "validate_connect w sa da = Return ()" by simp
    have "udp_of w' x = udp_of (set_udp (set_udp w sd (udp (hypervisors w sd) + 1)) dd
              ((if dd = sd then udp (hypervisors w sd) + 1 else udp (hypervisors w dd)) + 1)) x"
      using gen_connect_udp_of[OF g v] by simp
    then show ?thesis using v by (auto simp: udp_of_set_udp udp_of_def split: if_splits)
  next
    case (Raise e)
    have "w' = w" using g by (simp add: gen_connect_invalid[OF Raise])
    then show ?thesis using Raise by simp
  qed
next
  assume "r = Return ()"
  then show "map_option udplocal (bound_nio w' da dp)
             = Some (if dd = sd then udp (hypervisors w sd) + 1 else udp (hypervisors w dd))"
    using gen_connect_Return(1)[of fuel w sd sa sp dd da dp w'] g by simp
next
  assume "r = Return ()" and "sa \<noteq> da \<or> sp \<noteq> dp"
  then show "map_option udplocal (bound_nio w' sa sp) = Some (udp (hypervisors w sd))"
    using gen_connect_Return(2)[of fuel w sd sa sp dd da dp w'] g by simp
qed

text \<open>The definitions that evaluate a call of \<^verbatim>\<open>gen_connect\<close> in the laboratory.\<close>

lemmas lab_eval = gen_connect_def validate_connect_def get_adapter_def lab_def blank_world_def
      silent_socket_def ok_reply_def ethernets_def serials_def atms_def poss_def set_udp_def NIO_udp_def and_then_def send_def
      try_sendall_def sendall_def set_socket_def recv_def SIZE_def Let_def crlf_def CR_def LF_def
      call_nio_def BaseAdapter_nio_def

theorem gen_connect_udp_counter_witness:
  "fst (the (gen_connect 1 lab 2 (Adapter 4) (Some 0) 2 (Adapter 5) (Some 0)))
     = Raise (DynamipsError ''timeout'')
   \<and> udp (hypervisors lab 2) = 10000
   \<and> udp (hypervisors (snd (the (gen_connect 1 lab 2 (Adapter 4) (Some 0) 2 (Adapter 5) (Some 0)))) 2)
       = 10002"
proof -
  let ?G = "gen_connect 1 lab 2 (Adapter 4) (Some 0) 2 (Adapter 5) (Some 0)"
  have ne: "?G \<noteq> None" by (simp add: lab_eval)
  then obtain r w' where G: "?G = Some (r, w')" by (cases ?G) auto
  have v: "validate_connect lab (Adapter 4) (Adapter 5) = Return ()"
    by (simp add: validate_connect_def get_adapter_def lab_def ethernets_def)
  have u: "udp (hypervisors lab 2) = 10000" by (simp add: lab_def)
  have "fst (the ?G) = Raise (DynamipsError ''timeout'')" by (simp add: lab_eval)
  moreover have "udp (hypervisors w' 2) = 10002"
    using gen_connect_udp_counter[OF G, THEN conjunct1, of 2] v u by simp
  ultimately show ?thesis using G u by simp
qed

section \<open>Linking two ports\<close>

text \<open>
  Claim C6. When validation fails, \<^verbatim>\<open>gen_connect\<close> raises the error of the validation
  and returns the world as it was: no endpoint object is created, nothing is written to
  a socket, and the UDP port counters of both hypervisors are unchanged.
\<close>

theorem gen_connect_invalid_no_effect:
  assumes "validate_connect w sa da \<noteq> Return ()"
  shows "\<exists>msg. validate_connect w sa da = Raise (DynamipsError msg)
           \<and> gen_connect fuel w sd sa sp dd da dp = Some (Raise (DynamipsError msg), w)"
proof -
  from assms obtain e where e: "validate_connect w sa da = Raise e"
    by (cases "validate_connect w sa da") auto
  then obtain msg where "e = DynamipsError msg"
    by (auto simp: validate_connect_def split: option.splits if_splits)
  with e show ?thesis by (simp add: gen_connect_invalid)
qed

theorem gen_connect_invalid_no_effect_witness:
  "validate_connect lab (Adapter 0) (Adapter 2) \<noteq> Return ()
   \<and> gen_connect 1 lab 0 (Adapter 0) (Some 0) 0 (Adapter 2) (Some 0)
       = Some (Raise (DynamipsError ''attempt to connect PA-FE-TX to PA-4T+''), lab)"
proof -
  have v: "validate_connect lab (Adapter 0) (Adapter 2)
             = Raise (DynamipsError ''attempt to connect PA-FE-TX to PA-4T+'')"
    by (simp add: validate_connect_def get_adapter_def lab_def ethernets_def serials_def atms_def
        poss_def sublist_code)
  then have n: "validate_connect lab (Adapter 0) (Adapter 2) \<noteq> Return ()" by simp
  from gen_connect_invalid_no_effect[OF n, of 1 0 "Some 0" 0 "Some 0"] v n
  show ?thesis by simp
qed

text \<open>
  Claim C7. A \<^verbatim>\<open>gen_connect\<close> that returns has created exactly two \<^verbatim>\<open>NIO_udp\<close> objects
  and attached them to the two ends (two different ports). The source endpoint belongs to
  the source hypervisor and its local port is the port allocated there, the destination
  endpoint belongs to the destination hypervisor and its local port is the port allocated
  there, and each one's remote port is the other's local port.
\<close>

theorem gen_connect_paired_endpoints:
  assumes g: "gen_connect fuel w sd sa sp dd da dp = Some (Return (), w')"
    and distinct_ends: "sa \<noteq> da \<or> sp \<noteq> dp"
  shows "\<exists>src_nio dst_nio.
           bound_nio w' sa sp = Some src_nio \<and> bound_nio w' da dp = Some dst_nio
           \<and> nio_d src_nio = sd \<and> nio_d dst_nio = dd
           \<and> udplocal src_nio = udp (hypervisors w sd)
           \<and> udplocal dst_nio = (if dd = sd then udp (hypervisors w sd) + 1 else udp (hypervisors w dd))
           \<and> udpremote src_nio = udplocal dst_nio
           \<and> udpremote dst_nio = udplocal src_nio
           \<and> NIO_udp_instance w' = NIO_udp_instance w + 2"
  using gen_connect_Return(1,3)[OF g] gen_connect_Return(2)[OF g distinct_ends] by simp

theorem gen_connect_paired_endpoints_witness:
  "fst (the (gen_connect 1 lab 0 (Adapter 0) (Some 0) 0 (Adapter 1) (Some 0))) = Return ()
   \<and> (\<exists>src_nio dst_nio.
        bound_nio (snd (the (gen_connect 1 lab 0 (Adapter 0) (Some 0) 0 (Adapter 1) (Some 0))))
          (Adapter 0) (Some 0) = Some src_nio
        \<and> bound_nio (snd (the (gen_connect 1 lab 0 (Adapter 0) (Some 0) 0 (Adapter 1) (Some 0))))
          (Adapter 1) (Some 0) = Some dst_nio
        \<and> udplocal src_nio = 10000 \<and> udpremote src_nio = 10001
        \<and> udplocal dst_nio = 10001 \<and> udpremote dst_nio = 10000)"
proof -
  let ?G = "gen_connect 1 lab 0 (Adapter 0) (Some 0) 0 (Adapter 1) (Some 0)"
  have ne: "?G \<noteq> None" by (simp add: lab_eval)
  have r: "fst (the ?G) = Return ()" by (simp add: lab_eval)
  from ne r have G: "?G = Some (Return (), snd (the ?G))" by (cases ?G) auto
  have d: "Adapter 0 \<noteq> Adapter 1 \<or> Some (0::int) \<noteq> Some 0" by simp
  have u: "udp (hypervisors lab 0) = 10000" by (simp add: lab_def)
  from gen_connect_paired_endpoints[OF G d] u r show ?thesis by auto
qed

text \<open>
  Claim C8, as the code has it. \<^verbatim>\<open>gen_connect\<close> compares the host names of the two
  hypervisor objects: when they are equal (as they are when both are the same
  connection) both endpoints get \<^verbatim>\<open>127.0.0.1\<close> as remote address, otherwise each endpoint
  gets the host name of the other side's hypervisor.
\<close>

theorem gen_connect_remote_address:
  assumes g: "gen_connect fuel w sd sa sp dd da dp = Some (Return (), w')"
    and distinct_ends: "sa \<noteq> da \<or> sp \<noteq> dp"
  shows "map_option remotehost (bound_nio w' sa sp)
           = Some (if host (hypervisors w sd) = host (hypervisors w dd)
                   then ''127.0.0.1'' else host (hypervisors w dd))
       \<and> map_option remotehost (bound_nio w' da dp)
           = Some (if host (hypervisors w sd) = host (hypervisors w dd)
                   then ''127.0.0.1'' else host (hypervisors w sd))"
  using gen_connect_Return(1)[OF g] gen_connect_Return(2)[OF g distinct_ends] by simp

theorem gen_connect_remote_address_witness:
  "fst (the (gen_connect 1 lab 0 (Adapter 0) (Some 0) 3 (Adapter 6) (Some 0))) = Return ()
   \<and> map_option remotehost
        (bound_nio (snd (the (gen_connect 1 lab 0 (Adapter 0) (Some 0) 3 (Adapter 6) (Some 0))))
           (Adapter 0) (Some 0)) = Some ''leela''
   \<and> map_option remotehost
        (bound_nio (snd (the (gen_connect 1 lab 0 (Adapter 0) (Some 0) 3 (Adapter 6) (Some 0))))
           (Adapter 6) (Some 0)) = Some ''bender''"
proof -
  let ?G = "gen_connect 1 lab 0 (Adapter 0) (Some 0) 3 (Adapter 6) (Some 0)"
  have ne: "?G \<noteq> None" by (simp add: lab_eval)
  have r: "fst (the ?G) = Return ()" by (simp add: lab_eval)
  from ne r have G: "?G = Some (Return (), snd (the ?G))" by (cases ?G) auto
  have d: "Adapter 0 \<noteq> Adapter 6 \<or> Some (0::int) \<noteq> Some 0" by simp
  have h: "host (hypervisors lab 0) = ''bender''" "host (hypervisors lab 3) = ''leela''"
    by (simp_all add: lab_def)
  from gen_connect_remote_address[OF G d] h r show ?thesis by simp
qed

text \<open>The claim as it was stated fails for two different connections to the same host:
  the endpoints get the loopback address, not the host name of the other hypervisor.\<close>

theorem gen_connect_remote_address_counterexample:
  "tcp_port (hypervisors lab 0) \<noteq> tcp_port (hypervisors lab 1)
   \<and> host (hypervisors lab 0) = ''bender'' \<and> host (hypervisors lab 1) = ''bender''
   \<and> fst (the (gen_connect 1 lab 0 (Adapter 0) (Some 0) 1 (Adapter 3) (Some 0))) = Return ()
   \<and> map_option remotehost
        (bound_nio (snd (the (gen_connect 1 lab 0 (Adapter 0) (Some 0) 1 (Adapter 3) (Some 0))))
           (Adapter 0) (Some 0)) = Some ''127.0.0.1''
   \<and> map_option remotehost
        (bound_nio (snd (the (gen_connect 1 lab 0 (Adapter 0) (Some 0) 1 (Adapter 3) (Some 0))))
           (Adapter 3) (Some 0)) = Some ''127.0.0.1''"
  by (simp add: lab_eval bound_nio_def)

section \<open>Setting the console port\<close>

lemma checkconsole_devices_Some:
  "checkconsole_devices w c devs = Some dev \<Longrightarrow> dev \<in> set devs \<and> get_console w dev = Some c"
  by (induction devs) (auto split: option.splits if_splits)

lemma checkconsole_devices_found:
  "dev \<in> set devs \<Longrightarrow> get_console w dev = Some c \<Longrightarrow> checkconsole_devices w c devs \<noteq> None"
  by (induction devs) (auto split: option.splits)

lemma unique_holder:
  "distinct (concat (map f devs)) \<Longrightarrow> x \<in> set devs \<Longrightarrow> y \<in> set devs
     \<Longrightarrow> c \<in> set (f x) \<Longrightarrow> c \<in> set (f y) \<Longrightarrow> x = y"
  by (induction devs) auto

lemma checkconsole_holder:
  assumes uniq: "consoles_unique w d"
    and reg: "dev \<in> set (devices (hypervisors w d))"
    and holds: "get_console w dev = Some c"
  shows "checkconsole c w d = Some dev"
proof -
  from checkconsole_devices_found[OF reg holds] obtain first where
    f: "checkconsole_devices w c (devices (hypervisors w d)) = Some first" by auto
  from checkconsole_devices_Some[OF f] have
    fr: "first \<in> set (devices (hypervisors w d))" and fh: "get_console w first = Some c" by auto
  have "first = dev"
    using uniq fr reg fh holds unfolding consoles_unique_def
    by (elim unique_holder[where c = c]) (simp_all add: held_console_def)
  with f show ?thesis by (simp add: checkconsole_def)
qed


text \<open>The setter keeps the console ports of the router's hypervisor unique, whatever its
  outcome.\<close>

lemma distinct_concat_map_upd:
  assumes gx: "g x = [c]" and gf: "\<And>dev. dev \<noteq> x \<Longrightarrow> g dev = f dev"
  shows "distinct devs \<Longrightarrow> distinct (concat (map f devs))
     \<Longrightarrow> \<forall>dev\<in>set devs. dev \<noteq> x \<longrightarrow> c \<notin> set (f dev)
     \<Longrightarrow> distinct (concat (map g devs))"
proof (induction devs)
  case Nil
  then show ?case by simp
next
  case (Cons a devs)
  have p: "distinct devs" "distinct (concat (map f devs))"
    "\<forall>dev\<in>set devs. dev \<noteq> x \<longrightarrow> c \<notin> set (f dev)"
    using Cons.prems by simp_all
  have IH: "distinct (concat (map g devs))" using p by (rule Cons.IH)
  have sub: "set (concat (map g devs)) \<subseteq> set (concat (map f devs)) \<union> {c}"
  proof
    fix y assume "y \<in> set (concat (map g devs))"
    then obtain dev where dev: "dev \<in> set devs" "y \<in> set (g dev)" by auto
    show "y \<in> set (concat (map f devs)) \<union> {c}"
    proof (cases "dev = x")
      case True
      with dev gx show ?thesis by simp
    next
      case False
      with dev gf[OF False] show ?thesis by auto
    qed
  qed
  show ?case
  proof (cases "a = x")
    case True
    then have nx: "x \<notin> set devs" using Cons.prems(1) by simp
    have mg: "map g devs = map f devs"
    proof (rule map_cong[OF refl])
      fix dev assume "dev \<in> set devs"
      with nx have "dev \<noteq> x" by blast
      then show "g dev = f dev" by (rule gf)
    qed
    have e: "concat (map g devs) = concat (map f devs)" using mg by (rule arg_cong)
    have "g a = [c]" using True gx by simp
    then have "concat (map g (a # devs)) = c # concat (map f devs)"
      unfolding list.map concat.simps e by simp
    moreover have "c \<notin> set (concat (map f devs))" using p(3) nx by auto
    ultimately show ?thesis using p(2) by (metis distinct.simps(2))
  next
    case False
    have "c \<notin> set (f a)" using Cons.prems(3) False by simp
    moreover have "set (f a) \<inter> set (concat (map f devs)) = {}" using Cons.prems(2) by simp
    ultimately have "set (f a) \<inter> set (concat (map g devs)) = {}" using sub by blast
    moreover have "distinct (f a)" using Cons.prems(2) by simp
    ultimately show ?thesis using gf[OF False] IH by simp
  qed
qed

lemma checkconsole_free:
  assumes uniq: "consoles_unique w d"
    and cc: "checkconsole c w d = None \<or> checkconsole c w d = Some x"
  shows "\<forall>dev\<in>set (devices (hypervisors w d)). dev \<noteq> x \<longrightarrow> get_console w dev \<noteq> Some c"
proof (intro ballI impI notI)
  fix dev
  assume dev: "dev \<in> set (devices (hypervisors w d))" "dev \<noteq> x" "get_console w dev = Some c"
  from checkconsole_holder[OF uniq dev(1,3)] cc dev(2) show False by auto
qed

lemma Router_setconsole_keeps_unique:
  assumes uniq: "consoles_unique w (r_d (routers w self))"
    and dist: "distinct (devices (hypervisors w (r_d (routers w self))))"
    and run: "Router_setconsole fuel w self c = Some (r, w')"
  shows "consoles_unique w' (r_d (routers w self))
       \<and> devices (hypervisors w' (r_d (routers w self))) = devices (hypervisors w (r_d (routers w self)))"
proof (cases "w' = w")
  case True
  then show ?thesis using uniq by simp
next
  case False
  let ?d = "r_d (routers w self)"
  let ?w1 = "w\<lparr>routers := (routers w)(self := (routers w self)\<lparr>r_console := Some c\<rparr>)\<rparr>"
  from run False have cc: "checkconsole c w ?d = None \<or> checkconsole c w ?d = Some (Router self)"
    by (auto simp: Router_setconsole_def Let_def split: if_splits option.splits)
  from run False obtain res where "send fuel ?w1 ?d
      (''vm set_con_tcp_port '' @ r_name (routers w self) @ '' '' @ str_int c) = Some (res, w')"
    by (auto simp: Router_setconsole_def Let_def elim!: and_thenE split: if_splits option.splits)
  then obtain sock where w': "w' = set_socket ?w1 ?d sock" by (auto dest: send_world)
  have gx: "held_console w' (Router self) = [c]" by (simp add: w' held_console_def get_console_def)
  have gf: "held_console w' dev = held_console w dev" if "dev \<noteq> Router self" for dev
    using that by (cases dev) (simp_all add: w' held_console_def get_console_def)
  have free: "\<forall>dev\<in>set (devices (hypervisors w ?d)). dev \<noteq> Router self \<longrightarrow> c \<notin> set (held_console w dev)"
    using checkconsole_free[OF uniq cc] by (auto simp: held_console_def split: option.splits)
  have dv: "devices (hypervisors w' ?d) = devices (hypervisors w ?d)" by (simp add: w')
  have "distinct (concat (map (held_console w') (devices (hypervisors w ?d))))"
    using gx gf dist uniq[unfolded consoles_unique_def] free
    by (rule distinct_concat_map_upd)
  then show ?thesis unfolding consoles_unique_def dv by simp
qed



end
